theory Spec2Isabelle
  imports Main "HOL-Library.AList" "HOL-Library.Sublist" "HOL-Library.Char_ord"
    "HOL-Library.List_Lexorder"
begin


section \<open>Values shared by the converter and the save coordinator\<close>

text \<open>
  The Python values that the code inspects: \<open>None\<close>, integers and strings.
  Python's \<open>bool\<close> is a subclass of \<open>int\<close> (\<open>True == 1\<close>, \<open>False == 0\<close>, same hash), so
  the booleans are the integers 1 and 0; this keeps \<open>==\<close>, \<open>!=\<close> and dictionary
  membership of the model equal to Python's.
\<close>

datatype val = VNone | VInt int | VStr string

abbreviation VTrue :: val where "VTrue \<equiv> VInt 1"
abbreviation VFalse :: val where "VFalse \<equiv> VInt 0"

definition py_bool :: "bool \<Rightarrow> val" where
  "py_bool b = (if b then VTrue else VFalse)"

text \<open>Truthiness, as \<open>if x:\<close> tests it.\<close>

fun truthy :: "val \<Rightarrow> bool" where
  "truthy VNone = False"
| "truthy (VInt i) = (i \<noteq> 0)"
| "truthy (VStr s) = (s \<noteq> [])"

section \<open>The schema converter (\<open>wtfpeewee/orm.py\<close>)\<close>

subsection \<open>Data\<close>

datatype validator = Optional | Required | UserValidator string

text \<open>
  A keyword argument of a form-field constructor. Filters are functions on submitted
  values; \<open>KChoices\<close> holds \<open>field.choices\<close> (\<open>None\<close> or a list of pairs), \<open>KCoerce\<close> the
  name of a coercion function (\<open>int\<close>, \<open>float\<close>, \<open>text_type\<close>), \<open>KModel\<close> a model class.
\<close>

datatype kwarg =
    KVal val
  | KValidators "validator list"
  | KFilters "(val \<Rightarrow> val) list"
  | KChoices "(val \<times> string) list option"
  | KCoerce string
  | KModel string

type_synonym kwargs = "string \<rightharpoonup> kwarg"

text \<open>
  What \<open>save_inlines\<close> and \<open>convert_fields\<close> read of a model class: its name, the name
  of its primary key, the names of its other fields and the defaults a fresh instance
  starts with.
\<close>

record model_class =
  mc_name :: string
  mc_pk :: string
  mc_fields :: "string list"
  mc_defaults :: "string \<rightharpoonup> val"

text \<open>
  A \<open>ForeignKeyField\<close> as the inline machinery reads it: \<open>name\<close>, \<open>model_class\<close> (the
  model that declares the key, i.e. the child model) and \<open>related_name\<close>.
\<close>

record foreign_key_field =
  fk_name :: string
  fk_model_class :: model_class
  fk_related_name :: string

text \<open>
  The generated form field. Calling a wtforms field class at class-definition time
  yields an unbound field: the class and the constructor's keyword arguments. A
  \<open>ModelListField\<close> carries the foreign key, the nested form class and the depth. A form
  class is its name, its fields and its \<open>model\<close> attribute.
\<close>

datatype form_field =
    UnboundField string kwargs
  | ModelListField foreign_key_field form_class nat
and form_class =
    FormClass string "(string \<times> form_field) list" string

datatype error =
    AttributeError string
  | KeyError string
  | TypeError string
  | IndexError string
  | ValueError string "val list"

type_synonym field_info = "string \<times> form_field"

text \<open>
  A Peewee model field. \<open>cls\<close> names the field's class (\<open>type(field)\<close>) and \<open>bases\<close> its
  base classes, so that \<open>isinstance(field, C)\<close> holds when \<open>C\<close> is \<open>cls\<close> or one of \<open>bases\<close>.
  \<open>wtf_field\<close> is \<open>Some hook\<close> exactly when \<open>hasattr(field, 'wtf_field')\<close>.
\<close>

record model_field =
  name :: string
  cls :: string
  bases :: "string list"
  null :: bool
  choices :: "(val \<times> string) list option"
  default :: val
  verbose_name :: val
  help_text :: val
  rel_model :: string
  wtf_field :: "(string \<Rightarrow> kwargs \<Rightarrow> error + form_field) option"

definition isinstance :: "model_field \<Rightarrow> string \<Rightarrow> bool" where
  "isinstance field c = (c = cls field \<or> c \<in> set (bases field))"

text \<open>\<open>if field.choices:\<close> -- neither \<open>None\<close> nor empty.\<close>

definition choices_truthy :: "(val \<times> string) list option \<Rightarrow> bool" where
  "choices_truthy c = (case c of None \<Rightarrow> False | Some xs \<Rightarrow> xs \<noteq> [])"

subsection \<open>\<open>handle_null_filter\<close>\<close>

definition handle_null_filter :: "val \<Rightarrow> val" where
  "handle_null_filter data = (if data = VStr [] then VNone else data)"

subsection \<open>\<open>ModelConverter\<close>\<close>

text \<open>The class attributes \<open>defaults\<close> (an ordered table), \<open>coerce_defaults\<close> and \<open>required\<close>.\<close>

definition defaults :: "(string \<times> string) list" where
  "defaults =
    [(''BareField'', ''TextField''),
     (''BigIntegerField'', ''IntegerField''),
     (''BlobField'', ''TextAreaField''),
     (''BooleanField'', ''BooleanField''),
     (''CharField'', ''TextField''),
     (''DateField'', ''WPDateField''),
     (''DateTimeField'', ''WPDateTimeField''),
     (''DecimalField'', ''DecimalField''),
     (''DoubleField'', ''FloatField''),
     (''FloatField'', ''FloatField''),
     (''PrimaryKeyField'', ''HiddenIntegerField''),
     (''IntegerField'', ''IntegerField''),
     (''TextField'', ''TextAreaField''),
     (''TimeField'', ''WPTimeField''),
     (''TimestampField'', ''WPDateTimeField'')]"

definition coerce_defaults :: "(string \<times> string) list" where
  "coerce_defaults =
    [(''BigIntegerField'', ''int''),
     (''CharField'', ''text_type''),
     (''DoubleField'', ''float''),
     (''FloatField'', ''float''),
     (''IntegerField'', ''int''),
     (''TextField'', ''text_type'')]"

definition required :: "string list" where
  "required =
    [''CharField'', ''DateTimeField'', ''ForeignKeyField'', ''PrimaryKeyField'', ''TextField'']"

text \<open>
  \<open>issubclass(widget, f.FormField)\<close> for the widget classes of the table: only
  \<open>WPDateTimeField\<close> derives from \<open>FormField\<close> (\<open>fields.py\<close>, line 100).
\<close>

definition issubclass_FormField :: "string \<Rightarrow> bool" where
  "issubclass_FormField widget = (widget \<in> {''WPDateTimeField'', ''FormField''})"

type_synonym handler = "string \<Rightarrow> model_field \<Rightarrow> kwargs \<Rightarrow> error + field_info"

record model_converter =
  converters :: "(string \<times> handler) list"
  coerce_settings :: "(string \<times> string) list"
  overrides :: "string \<rightharpoonup> (kwargs \<Rightarrow> error + form_field)"

text \<open>
  \<open>f(name=value, **kwargs)\<close> raises \<open>TypeError\<close> when \<open>kwargs\<close> already has \<open>name\<close>.
\<close>

definition call_with :: "string \<Rightarrow> kwarg \<Rightarrow> kwargs \<Rightarrow> error + kwargs" where
  "call_with k v kwargs =
    (if kwargs k \<noteq> None then Inl (TypeError ''got multiple values for keyword argument'')
     else Inr (kwargs(k \<mapsto> v)))"

text \<open>
  The converters hold the bound method \<open>self.handle_foreign_key\<close>, and \<open>convert\<close> calls it as
  \<open>handler(model, field, **kwargs)\<close>. Its parameters are \<open>self\<close>, \<open>model\<close> and \<open>field\<close>, so
  a keyword argument of one of these names is a second value for a parameter, and the
  call raises \<open>TypeError\<close> before the body runs.
\<close>

definition positional_clash :: "kwargs \<Rightarrow> bool" where
  "positional_clash kwargs =
    (kwargs ''self'' \<noteq> None \<or> kwargs ''model'' \<noteq> None \<or> kwargs ''field'' \<noteq> None)"

definition handle_foreign_key :: handler where
  "handle_foreign_key model field kwargs0 =
    (if positional_clash kwargs0 then Inl (TypeError ''got multiple values for argument'')
     else
      (let kwargs = (if null field then kwargs0(''allow_blank'' \<mapsto> KVal VTrue) else kwargs0) in
       if choices field \<noteq> None then
         (case call_with ''query'' (KChoices (choices field)) kwargs of
            Inl e \<Rightarrow> Inl e
          | Inr kw \<Rightarrow> Inr (name field, UnboundField ''SelectQueryField'' kw))
       else
         (case call_with ''model'' (KModel (rel_model field)) kwargs of
            Inl e \<Rightarrow> Inl e
          | Inr kw \<Rightarrow> Inr (name field, UnboundField ''ModelSelectField'' kw))))"

text \<open>\<open>d.update(other)\<close> on insertion-ordered dictionaries.\<close>

definition dict_update :: "('k \<times> 'v) list \<Rightarrow> ('k \<times> 'v) list \<Rightarrow> ('k \<times> 'v) list" where
  "dict_update d other = fold (\<lambda>(k, v). AList.update k v) other d"

definition ModelConverter_init ::
  "(string \<times> handler) list \<Rightarrow> (string \<times> string) list \<Rightarrow>
   (string \<rightharpoonup> (kwargs \<Rightarrow> error + form_field)) \<Rightarrow> model_converter" where
  "ModelConverter_init additional additional_coerce overrides' =
    \<lparr> converters = dict_update [(''ForeignKeyField'', handle_foreign_key)] additional,
      coerce_settings = dict_update coerce_defaults additional_coerce,
      overrides = overrides' \<rparr>"

text \<open>Lines 108--115 of \<open>convert\<close>: the keyword arguments, updated by \<open>field_args\<close>.\<close>

definition initial_kwargs :: "model_field \<Rightarrow> kwargs option \<Rightarrow> kwargs" where
  "initial_kwargs field field_args =
    (let kwargs = [''label'' \<mapsto> KVal (verbose_name field),
                   ''validators'' \<mapsto> KValidators [],
                   ''filters'' \<mapsto> KFilters [],
                   ''default'' \<mapsto> KVal (default field),
                   ''description'' \<mapsto> KVal (help_text field)]
     in case field_args of None \<Rightarrow> kwargs | Some fa \<Rightarrow> kwargs ++ fa)"

text \<open>
  Lines 117--131 of \<open>convert\<close>: the inferred filter and validator. A \<open>validators\<close> or
  \<open>filters\<close> argument that is not a list is outside the contract of \<open>field_args\<close>; the
  model reports it as a \<open>TypeError\<close> where the code first uses it as a list.
\<close>

definition convert_kwargs :: "model_field \<Rightarrow> kwargs option \<Rightarrow> error + kwargs" where
  "convert_kwargs field field_args =
    (let kwargs1 = initial_kwargs field field_args
     in case kwargs1 ''validators'' of
          Some (KValidators vs) \<Rightarrow>
            (case (if null field
                   then (case kwargs1 ''filters'' of
                           Some (KFilters fs) \<Rightarrow>
                             Inr (kwargs1(''filters'' \<mapsto> KFilters (fs @ [handle_null_filter])))
                         | _ \<Rightarrow> Inl (TypeError ''filters''))
                   else Inr kwargs1) of
               Inl e \<Rightarrow> Inl e
             | Inr kwargs2 \<Rightarrow>
                 if (null field \<or> default field \<noteq> VNone) \<and> \<not> choices_truthy (choices field)
                 then Inr (kwargs2(''validators'' \<mapsto> KValidators (vs @ [Optional])))
                 else if \<exists>c \<in> set required. isinstance field c
                 then Inr (kwargs2(''validators'' \<mapsto> KValidators (vs @ [Required])))
                 else Inr kwargs2)
        | _ \<Rightarrow> Inl (TypeError ''validators''))"

text \<open>Lines 144--146: the loop over \<open>self.converters\<close>; \<open>None\<close> when no converter matches.\<close>

fun convert_converters ::
  "(string \<times> handler) list \<Rightarrow> string \<Rightarrow> model_field \<Rightarrow> kwargs \<Rightarrow> (error + field_info) option" where
  "convert_converters [] model field kwargs = None"
| "convert_converters ((converter, h) # rest) model field kwargs =
    (if isinstance field converter then Some (h model field kwargs)
     else convert_converters rest model field kwargs)"

text \<open>
  Lines 153--170: the body of the loop over \<open>self.defaults\<close> for the first entry whose
  class the field is an instance of. \<open>kwargs.pop('coerce', self.coerce_settings[converter])\<close>
  evaluates its default first, hence the \<open>KeyError\<close>.
\<close>

definition convert_default ::
  "model_converter \<Rightarrow> string \<Rightarrow> string \<Rightarrow> model_field \<Rightarrow> kwargs \<Rightarrow> error + field_info" where
  "convert_default self converter widget field kwargs0 =
    (let kwargs1 = (if issubclass_FormField widget then kwargs0(''filters'' := None) else kwargs0) in
     if choices_truthy (choices field) \<or> kwargs1 ''choices'' \<noteq> None then
       (let choices' = (case kwargs1 ''choices'' of Some c \<Rightarrow> c | None \<Rightarrow> KChoices (choices field));
            kwargs2 = kwargs1(''choices'' := None)
        in if map_of (coerce_settings self) converter \<noteq> None \<or> kwargs2 ''coerce'' \<noteq> None then
             (case map_of (coerce_settings self) converter of
                None \<Rightarrow> Inl (KeyError converter)
              | Some dflt \<Rightarrow>
                  (let coerce_fn = (case kwargs2 ''coerce'' of Some c \<Rightarrow> c | None \<Rightarrow> KCoerce dflt);
                       kwargs3 = kwargs2(''coerce'' := None);
                       allow_blank = (case kwargs3 ''allow_blank'' of Some a \<Rightarrow> a
                                      | None \<Rightarrow> KVal (py_bool (null field)));
                       kwargs4 = kwargs3(''allow_blank'' := None);
                       kwargs5 = kwargs4(''choices'' \<mapsto> choices', ''coerce'' \<mapsto> coerce_fn,
                                         ''allow_blank'' \<mapsto> allow_blank)
                   in Inr (name field, UnboundField ''SelectChoicesField'' kwargs5)))
           else Inr (name field, UnboundField widget kwargs2))
     else Inr (name field, UnboundField widget kwargs1))"

fun convert_defaults ::
  "(string \<times> string) list \<Rightarrow> model_converter \<Rightarrow> model_field \<Rightarrow> kwargs \<Rightarrow> (error + field_info) option" where
  "convert_defaults [] self field kwargs = None"
| "convert_defaults ((converter, widget) # rest) self field kwargs =
    (if \<not> isinstance field converter then convert_defaults rest self field kwargs
     else Some (convert_default self converter widget field kwargs))"

text \<open>\<open>str(type(field))\<close>, as \<open>'%s' % type(field)\<close> renders a class.\<close>

definition type_repr :: "model_field \<Rightarrow> string" where
  "type_repr field = ''<class '' @ [CHR 0x27] @ cls field @ [CHR 0x27] @ ''>''"

definition convert :: "model_converter \<Rightarrow> string \<Rightarrow> model_field \<Rightarrow> kwargs option \<Rightarrow> error + field_info" where
  "convert self model field field_args =
    (case convert_kwargs field field_args of
       Inl e \<Rightarrow> Inl e
     | Inr kwargs \<Rightarrow>
        (case overrides self (name field) of
           Some ov \<Rightarrow> (case ov kwargs of Inl e \<Rightarrow> Inl e | Inr ff \<Rightarrow> Inr (name field, ff))
         | None \<Rightarrow>
            (case wtf_field field of
               Some hook \<Rightarrow> (case hook model kwargs of Inl e \<Rightarrow> Inl e | Inr ff \<Rightarrow> Inr (name field, ff))
             | None \<Rightarrow>
                (case convert_converters (converters self) model field kwargs of
                   Some r \<Rightarrow> r
                 | None \<Rightarrow>
                    (case convert_defaults defaults self field kwargs of
                       Some r \<Rightarrow> r
                     | None \<Rightarrow>
                        Inl (AttributeError (''There is not possible conversion for '' @ [CHR 0x27]
                               @ type_repr field @ [CHR 0x27])))))))"

subsection \<open>\<open>convert_fields\<close> and \<open>form\<close>\<close>

text \<open>
  A model's metadata: \<open>model._meta.sorted_fields\<close> and \<open>model._meta.reverse_rel\<close> (the
  foreign keys of other models that point to this one, by related name). A schema maps
  the name of a model class to its metadata.
\<close>

record model_meta =
  sorted_fields :: "model_field list"
  reverse_rel :: "(string \<times> foreign_key_field) list"

type_synonym schema = "string \<Rightarrow> model_meta"

text \<open>\<open>if only:\<close> on an argument that is \<open>None\<close> or a list of names.\<close>

definition list_truthy :: "string list option \<Rightarrow> bool" where
  "list_truthy l = (case l of None \<Rightarrow> False | Some xs \<Rightarrow> xs \<noteq> [])"

text \<open>\<open>[n[len(name)+1:] for n in names if n.startswith(name + '.')]\<close>\<close>

definition sub_names :: "string \<Rightarrow> string list \<Rightarrow> string list" where
  "sub_names nm names = [drop (length nm + 1) n. n \<leftarrow> names, prefix (nm @ ''.'') n]"

text \<open>Lines 196--202: the loop converting the model's own fields.\<close>

fun convert_model_fields ::
  "model_converter \<Rightarrow> string \<Rightarrow> model_field list \<Rightarrow> (string \<rightharpoonup> kwargs) \<Rightarrow>
   (string \<times> form_field) list \<Rightarrow> error + (string \<times> form_field) list" where
  "convert_model_fields self model [] field_args field_dict = Inr field_dict"
| "convert_model_fields self model (model_field # rest) field_args field_dict =
    (case convert self model model_field (field_args (name model_field)) of
       Inl e \<Rightarrow> Inl e
     | Inr (nm, field) \<Rightarrow>
         convert_model_fields self model rest field_args (AList.update nm field field_dict))"

text \<open>
  Lines 184--194: the model's fields and its inlines (the reverse relations, sorted by
  related name), restricted by \<open>allow_pk\<close>, \<open>only\<close> and \<open>exclude\<close>. \<open>pop(0)\<close> on an empty
  list raises, which \<open>convert_fields\<close> tests before it selects.
\<close>

definition select_fields ::
  "bool \<Rightarrow> string list option \<Rightarrow> string list option \<Rightarrow> model_field list \<Rightarrow> model_field list" where
  "select_fields allow_pk only exclude model_fields0 =
    (let model_fields = (if \<not> allow_pk then tl model_fields0 else model_fields0)
     in if list_truthy only then filter (\<lambda>x. name x \<in> set (the only)) model_fields
        else if list_truthy exclude then filter (\<lambda>x. name x \<notin> set (the exclude)) model_fields
        else model_fields)"

definition select_inlines ::
  "string list option \<Rightarrow> string list option \<Rightarrow> (string \<times> foreign_key_field) list \<Rightarrow>
   (string \<times> foreign_key_field) list" where
  "select_inlines only exclude reverse_rel' =
    (let inlines = sort_key fst reverse_rel'
     in if list_truthy only then filter (\<lambda>(k, r). k \<in> set (the only)) inlines
        else if list_truthy exclude then filter (\<lambda>(k, r). k \<notin> set (the exclude)) inlines
        else inlines)"

text \<open>Lines 206--213: the \<open>only\<close> and \<open>exclude\<close> arguments of the nested form.\<close>

definition sub_only_of :: "string \<Rightarrow> string list option \<Rightarrow> string list option" where
  "sub_only_of nm only = (if list_truthy only then Some (sub_names nm (the only)) else None)"

definition sub_exclude_of :: "string \<Rightarrow> foreign_key_field \<Rightarrow> string list option \<Rightarrow> string list" where
  "sub_exclude_of nm foreign_key_field exclude =
    (let sub_exclude = (if list_truthy exclude then sub_names nm (the exclude) else [])
     in if fk_name foreign_key_field \<notin> set sub_exclude
        then sub_exclude @ [fk_name foreign_key_field] else sub_exclude)"

text \<open>Lines 217--218: the \<open>field_args\<close> of the nested form.\<close>

definition inline_field_args :: "foreign_key_field \<Rightarrow> string \<rightharpoonup> kwargs" where
  "inline_field_args foreign_key_field =
    [mc_pk (fk_model_class foreign_key_field) \<mapsto> [''validators'' \<mapsto> KValidators [Optional]]]"

text \<open>Lines 238--242 of \<open>form\<close>: the class built from the dictionary of fields.\<close>

definition make_form_class :: "string \<Rightarrow> bool \<Rightarrow> (string \<times> form_field) list \<Rightarrow> form_class" where
  "make_form_class model allow_delete field_dict =
    (let attrs =
       (if allow_delete
        then AList.update ''delete_''
               (UnboundField ''BooleanField'' [''default'' \<mapsto> KVal VFalse]) field_dict
        else field_dict)
     in FormClass (model @ ''Form'') (AList.delete ''model'' attrs) model)"

text \<open>
  \<open>convert_fields\<close>, the loop over the inlines (lines 205--224) and \<open>form\<close> call one
  another. Python bounds the recursion only by its stack, so the model counts the nesting
  of \<open>convert_fields\<close> calls with a fuel argument: the result is \<open>None\<close> when the fuel
  does not suffice, \<open>Some (Inl e)\<close> when the code raises \<open>e\<close>, and \<open>Some (Inr r)\<close> when it
  returns \<open>r\<close>.
\<close>

function
  convert_fields ::
    "nat \<Rightarrow> model_converter \<Rightarrow> schema \<Rightarrow> string \<Rightarrow> bool \<Rightarrow> string list option \<Rightarrow>
     string list option \<Rightarrow> (string \<rightharpoonup> kwargs) option \<Rightarrow> bool \<Rightarrow> nat \<Rightarrow>
     (error + (string \<times> form_field) list) option"
and convert_inlines ::
    "nat \<Rightarrow> model_converter \<Rightarrow> schema \<Rightarrow> (string \<times> foreign_key_field) list \<Rightarrow>
     string list option \<Rightarrow> string list option \<Rightarrow> nat \<Rightarrow> (string \<times> form_field) list \<Rightarrow>
     (error + (string \<times> form_field) list) option"
and form ::
    "nat \<Rightarrow> model_converter \<Rightarrow> schema \<Rightarrow> string \<Rightarrow> bool \<Rightarrow> string list option \<Rightarrow>
     string list option \<Rightarrow> (string \<rightharpoonup> kwargs) option \<Rightarrow> bool \<Rightarrow> bool \<Rightarrow> nat \<Rightarrow>
     (error + form_class) option"
where
  "convert_fields 0 self sch model allow_pk only exclude field_args include_inlines depth = None"
| "convert_fields (Suc fuel) self sch model allow_pk only exclude field_args include_inlines depth =
    (let field_args' = (case field_args of None \<Rightarrow> Map.empty | Some fa \<Rightarrow> fa) in
     if \<not> allow_pk \<and> sorted_fields (sch model) = []
     then Some (Inl (IndexError ''pop from empty list''))
     else
       (case convert_model_fields self model
               (select_fields allow_pk only exclude (sorted_fields (sch model))) field_args' [] of
          Inl e \<Rightarrow> Some (Inl e)
        | Inr field_dict \<Rightarrow>
            if include_inlines
            then convert_inlines fuel self sch
                   (select_inlines only exclude (reverse_rel (sch model))) only exclude depth
                   field_dict
            else Some (Inr field_dict)))"
| "convert_inlines fuel self sch [] only exclude depth field_dict = Some (Inr field_dict)"
| "convert_inlines fuel self sch ((nm, foreign_key_field) # rest) only exclude depth field_dict =
    (case form fuel self sch (mc_name (fk_model_class foreign_key_field)) True
            (sub_only_of nm only) (Some (sub_exclude_of nm foreign_key_field exclude))
            (Some (inline_field_args foreign_key_field)) True True (depth + 1) of
       None \<Rightarrow> None
     | Some (Inl e) \<Rightarrow> Some (Inl e)
     | Some (Inr inline_form) \<Rightarrow>
         convert_inlines fuel self sch rest only exclude depth
           (AList.update nm (ModelListField foreign_key_field inline_form (depth + 1))
              field_dict))"
| "form fuel self sch model allow_pk only exclude field_args allow_delete include_inlines depth =
    (case convert_fields fuel self sch model allow_pk only exclude field_args include_inlines
            depth of
       None \<Rightarrow> None
     | Some (Inl e) \<Rightarrow> Some (Inl e)
     | Some (Inr field_dict) \<Rightarrow> Some (Inr (make_form_class model allow_delete field_dict)))"
  by pat_completeness auto
termination
  by (relation "inv_image (less_than <*lex*> less_than) (\<lambda>x. case x of
        Inl (fuel, _) \<Rightarrow> (fuel, 0)
      | Inr (Inl (fuel, _, _, inlines, _)) \<Rightarrow> (fuel, 2 + length inlines)
      | Inr (Inr (fuel, _)) \<Rightarrow> (fuel, 1))") auto

text \<open>\<open>model_form(model, ...)\<close> with the default converter and a given recursion budget.\<close>

definition model_form ::
  "nat \<Rightarrow> schema \<Rightarrow> string \<Rightarrow> bool \<Rightarrow> string list option \<Rightarrow> string list option \<Rightarrow>
   (string \<rightharpoonup> kwargs) option \<Rightarrow> bool \<Rightarrow> bool \<Rightarrow> (error + form_class) option" where
  "model_form fuel sch model allow_pk only exclude field_args allow_delete include_inlines =
    form fuel (ModelConverter_init [] [] Map.empty) sch model allow_pk only exclude field_args
      allow_delete include_inlines 0"

section \<open>The save coordinator (\<open>wtfpeewee/forms.py\<close>)\<close>

subsection \<open>Bound forms and their data\<close>

text \<open>
  A bound form is the ordered dictionary of its fields. A plain field holds its
  submitted \<open>data\<close>; a bound \<open>ModelListField\<close> holds its foreign key and its entries, each
  entry being the nested form (\<open>formfield.form\<close>).
\<close>

datatype bound_form = Form "(string \<times> bound_field) list"
and bound_field =
    BoundField val
  | BoundModelListField foreign_key_field "bound_form list"

text \<open>
  \<open>field.data\<close>: the value of a plain field, a list (one dictionary per entry) for a
  \<open>ModelListField\<close>. The code never looks inside such a list; its length decides its
  truthiness.
\<close>

datatype field_data = DVal val | DList nat

fun fields_of :: "bound_form \<Rightarrow> (string \<times> bound_field) list" where
  "fields_of (Form fs) = fs"

fun data_of :: "bound_field \<Rightarrow> field_data" where
  "data_of (BoundField v) = DVal v"
| "data_of (BoundModelListField fk es) = DList (length es)"

text \<open>\<open>form.data\<close>: the dictionary from field name to field data.\<close>

definition form_data :: "bound_form \<Rightarrow> string \<rightharpoonup> field_data" where
  "form_data f = map_of (map (\<lambda>(n, fld). (n, data_of fld)) (rev (fields_of f)))"

fun data_truthy :: "field_data option \<Rightarrow> bool" where
  "data_truthy None = False"
| "data_truthy (Some (DVal v)) = truthy v"
| "data_truthy (Some (DList n)) = (n \<noteq> 0)"

subsection \<open>Model instances and the database, as the code uses Peewee\<close>

text \<open>
  A model instance is its class and its field data (\<open>_data\<close>). The database maps a model
  name and a primary key to the stored row and keeps, per model, the next automatic
  primary key. Peewee is not part of the repository; the operations below are the ones
  \<open>forms.py\<close> calls, with Peewee 2.x's behaviour:
  \<^item> \<open>setattr\<close> on the name of a field (the primary key is one) stores into \<open>_data\<close>; any
    other attribute is never read by the save coordinator and is dropped;
  \<^item> \<open>save()\<close> updates the row with the instance's primary key when that key is not
    \<open>None\<close> (no row, no effect) and otherwise inserts a row under a fresh key, which it
    stores in the instance;
  \<^item> \<open>delete_instance()\<close> removes the row with the instance's primary key;
  \<^item> \<open>getattr(parent_obj, related_name)\<close> selects the rows of the child model whose
    foreign key equals the parent's primary key;
  \<^item> \<open>database.atomic()\<close> commits when its body returns and rolls back when it raises.
\<close>

record obj =
  obj_class :: model_class
  obj_data :: "string \<rightharpoonup> val"

record database =
  rows :: "(string \<times> val) \<rightharpoonup> (string \<rightharpoonup> val)"
  next_id :: "string \<Rightarrow> int"

definition new_instance :: "model_class \<Rightarrow> obj" where
  "new_instance submodel = \<lparr> obj_class = submodel, obj_data = mc_defaults submodel \<rparr>"

definition get_pk_value :: "obj \<Rightarrow> val" where
  "get_pk_value ob = (case obj_data ob (mc_pk (obj_class ob)) of None \<Rightarrow> VNone | Some v \<Rightarrow> v)"

definition setattr :: "obj \<Rightarrow> string \<Rightarrow> val \<Rightarrow> obj" where
  "setattr ob nm v =
    (if nm = mc_pk (obj_class ob) \<or> nm \<in> set (mc_fields (obj_class ob))
     then ob\<lparr> obj_data := (obj_data ob)(nm \<mapsto> v) \<rparr>
     else ob)"

definition save :: "obj \<Rightarrow> database \<Rightarrow> obj \<times> database" where
  "save ob db =
    (let m = mc_name (obj_class ob); pk_name = mc_pk (obj_class ob); pk = get_pk_value ob in
     if pk \<noteq> VNone then
       (case rows db (m, pk) of
          None \<Rightarrow> (ob, db)
        | Some r \<Rightarrow>
            (ob, db\<lparr> rows := (rows db)((m, pk) \<mapsto> r ++ ((obj_data ob)(pk_name := None))) \<rparr>))
     else
       (let pk' = VInt (next_id db m);
            ob' = ob\<lparr> obj_data := (obj_data ob)(pk_name \<mapsto> pk') \<rparr>
        in (ob', db\<lparr> rows := (rows db)((m, pk') \<mapsto> obj_data ob'),
                     next_id := (next_id db)(m := next_id db m + 1) \<rparr>)))"

definition delete_instance :: "obj \<Rightarrow> database \<Rightarrow> database" where
  "delete_instance ob db =
    db\<lparr> rows := (rows db)((mc_name (obj_class ob), get_pk_value ob) := None) \<rparr>"

text \<open>
  \<open>{o._get_pk_value(): o for o in getattr(parent_obj, foreign_key_field.related_name)}\<close>:
  the records of the child model whose foreign key equals the parent's primary key, by
  their own primary keys. For a parent without a key the query compares the column with
  \<open>NULL\<close>, which no row satisfies.
\<close>

definition existing_of :: "database \<Rightarrow> foreign_key_field \<Rightarrow> val \<Rightarrow> val \<rightharpoonup> obj" where
  "existing_of db foreign_key_field parent_pk =
    (\<lambda>pk. if parent_pk = VNone then None
          else (case rows db (mc_name (fk_model_class foreign_key_field), pk) of
                  None \<Rightarrow> None
                | Some r \<Rightarrow>
                    if r (fk_name foreign_key_field) = Some parent_pk
                    then Some \<lparr> obj_class = fk_model_class foreign_key_field,
                                obj_data = r(mc_pk (fk_model_class foreign_key_field) \<mapsto> pk) \<rparr>
                    else None))"

text \<open>
  \<open>Form.populate_obj\<close>: every field populates the object under its own name; a
  \<open>ModelListField\<close> populates nothing (\<open>fields.py\<close>, lines 470--473).
\<close>

definition populate_obj :: "bound_form \<Rightarrow> obj \<Rightarrow> obj" where
  "populate_obj f ob =
    fold (\<lambda>(nm, fld) acc. case fld of BoundField v \<Rightarrow> setattr acc nm v
                                     | BoundModelListField fk es \<Rightarrow> acc) (fields_of f) ob"

subsection \<open>\<open>save_inlines\<close> and \<open>save_to\<close>\<close>

text \<open>
  \<open>save_inlines\<close> is the loop over the form's \<open>ModelListField\<close>s (\<open>save_fields\<close>, which
  skips the other fields as the list comprehension of line 63 does) around the loop over
  the entries of one field (\<open>save_entries\<close>, lines 72--111). A raise ends every loop; the
  database reached so far is returned with the error, since nothing in \<open>save_inlines\<close>
  undoes a write. \<open>existing\<close> is threaded through the entries because \<open>populate_obj\<close>
  mutates the instances it holds.
\<close>

fun save_inlines :: "bound_form \<Rightarrow> obj \<Rightarrow> database \<Rightarrow> (error + unit) \<times> database"
and save_fields :: "(string \<times> bound_field) list \<Rightarrow> val \<Rightarrow> database \<Rightarrow> (error + unit) \<times> database"
and save_entries ::
  "foreign_key_field \<Rightarrow> val \<Rightarrow> bound_form list \<Rightarrow> (val \<rightharpoonup> obj) \<Rightarrow> database \<Rightarrow>
   (error + unit) \<times> database"
where
  "save_inlines (Form fs) parent_obj db = save_fields fs (get_pk_value parent_obj) db"
| "save_fields [] parent_pk db = (Inr (), db)"
| "save_fields ((nm, BoundField v) # rest) parent_pk db = save_fields rest parent_pk db"
| "save_fields ((nm, BoundModelListField foreign_key_field entries) # rest) parent_pk db =
    (let pk_name = mc_pk (fk_model_class foreign_key_field) in
     if \<exists>e \<in> set entries. form_data e pk_name = None then (Inl (KeyError pk_name), db)
     else
       (case save_entries foreign_key_field parent_pk entries
               (existing_of db foreign_key_field parent_pk) db of
          (Inl e, db') \<Rightarrow> (Inl e, db')
        | (Inr u, db') \<Rightarrow> save_fields rest parent_pk db'))"
| "save_entries foreign_key_field parent_pk [] existing db = (Inr (), db)"
| "save_entries foreign_key_field parent_pk (subform # rest) existing db =
    (let submodel = fk_model_class foreign_key_field;
         pk_name = mc_pk submodel;
         data = form_data subform
     in case data pk_name of
          None \<Rightarrow> (Inl (KeyError pk_name), db)
        | Some d \<Rightarrow>
            if d = DVal VNone then
              (if data_truthy (data ''delete_'')
               then save_entries foreign_key_field parent_pk rest existing db
               else
                 (let subobj0 = setattr (new_instance submodel) (fk_name foreign_key_field) parent_pk;
                      (subobj, db1) = save (populate_obj subform subobj0) db
                  in case save_inlines subform subobj db1 of
                       (Inl e, db2) \<Rightarrow> (Inl e, db2)
                     | (Inr u, db2) \<Rightarrow>
                         save_entries foreign_key_field parent_pk rest existing db2))
            else
              (case d of
                 DList n \<Rightarrow> (Inl (TypeError ''unhashable type''), db)
               | DVal pk \<Rightarrow>
                   (case existing pk of
                      None \<Rightarrow>
                        (Inl (ValueError ''Cannot save data to a foreign child (id {}).'' [pk]), db)
                    | Some subobj0 \<Rightarrow>
                        if (case data (fk_name foreign_key_field) of
                              None \<Rightarrow> False | Some d' \<Rightarrow> d' \<noteq> DVal parent_pk)
                        then (Inl (ValueError ''Cannot change parentage of a child'' []), db)
                        else if data_truthy (data ''delete_'')
                        then save_entries foreign_key_field parent_pk rest existing
                               (delete_instance subobj0 db)
                        else
                          (let (subobj, db1) = save (populate_obj subform subobj0) db
                           in case save_inlines subform subobj db1 of
                                (Inl e, db2) \<Rightarrow> (Inl e, db2)
                              | (Inr u, db2) \<Rightarrow>
                                  save_entries foreign_key_field parent_pk rest
                                    (existing(pk \<mapsto> subobj)) db2))))"

text \<open>\<open>with database.atomic(): body\<close>\<close>

definition atomic ::
  "(database \<Rightarrow> (error + unit) \<times> 'a \<times> database) \<Rightarrow> database \<Rightarrow> (error + unit) \<times> 'a \<times> database" where
  "atomic body db =
    (case body db of
       (Inl e, x, db') \<Rightarrow> (Inl e, x, db)
     | (Inr u, x, db') \<Rightarrow> (Inr u, x, db'))"

text \<open>
  \<open>save_to\<close> returns, with the outcome and the database, the instance as the call leaves
  it in memory.
\<close>

definition save_to_body :: "bound_form \<Rightarrow> obj \<Rightarrow> database \<Rightarrow> (error + unit) \<times> obj \<times> database" where
  "save_to_body self ob db =
    (let (ob', db1) = save (populate_obj self ob) db;
         (r, db2) = save_inlines self ob' db1
     in (r, ob', db2))"

definition save_to :: "bound_form \<Rightarrow> obj \<Rightarrow> database \<Rightarrow> (error + unit) \<times> obj \<times> database" where
  "save_to self ob db = atomic (save_to_body self ob) db"
section \<open>Notions used to state the properties\<close>

text \<open>The validators and filters that \<open>field_args\<close> supplies for a field (none by default).\<close>

definition given_validators :: "kwargs option \<Rightarrow> validator list" where
  "given_validators fa =
    (case fa of None \<Rightarrow> []
     | Some a \<Rightarrow> (case a ''validators'' of Some (KValidators vs) \<Rightarrow> vs | _ \<Rightarrow> []))"

definition given_filters :: "kwargs option \<Rightarrow> (val \<Rightarrow> val) list" where
  "given_filters fa =
    (case fa of None \<Rightarrow> []
     | Some a \<Rightarrow> (case a ''filters'' of Some (KFilters fs) \<Rightarrow> fs | _ \<Rightarrow> []))"

text \<open>The first entry of an ordered table whose class the field is an instance of.\<close>

definition first_match :: "model_field \<Rightarrow> (string \<times> 'a) list \<Rightarrow> (string \<times> 'a) option" where
  "first_match field table = List.find (\<lambda>(c, x). isinstance field c) table"

text \<open>
  A converter and a field for which \<open>convert\<close> reaches only the code of the repository:
  no override for the field's name, no \<open>wtf_field\<close> hook, no additional converter.
\<close>

definition builtin_converter :: "model_converter \<Rightarrow> model_field \<Rightarrow> bool" where
  "builtin_converter self field =
    (overrides self (name field) = None \<and> wtf_field field = None \<and>
     converters self = [(''ForeignKeyField'', handle_foreign_key)])"

text \<open>The field is converted through a default-table widget that is a nested form.\<close>

definition nested_form_widget :: "model_field \<Rightarrow> bool" where
  "nested_form_widget field =
    (\<not> isinstance field ''ForeignKeyField'' \<and>
     (case first_match field defaults of None \<Rightarrow> False | Some (c, w) \<Rightarrow> issubclass_FormField w))"

definition no_conversion_message :: "model_field \<Rightarrow> string" where
  "no_conversion_message field =
    ''There is not possible conversion for '' @ [CHR 0x27] @ type_repr field @ [CHR 0x27]"

text \<open>A wtforms field applies its filters to the submitted value in order.\<close>

definition run_filters :: "(val \<Rightarrow> val) list \<Rightarrow> val \<Rightarrow> val" where
  "run_filters fs v = fold (\<lambda>f x. f x) fs v"

text \<open>
  The automatic keys in use lie below the next automatic key of their model: the key
  that \<open>save\<close> assigns to a new row is not the key of a stored row.
\<close>

definition below_next :: "database \<Rightarrow> string \<times> val \<Rightarrow> bool" where
  "below_next db k = (case k of (m, VInt n) \<Rightarrow> n < next_id db m | _ \<Rightarrow> True)"

definition fresh :: "database \<Rightarrow> bool" where
  "fresh db = (\<forall>k. rows db k \<noteq> None \<longrightarrow> below_next db k)"

text \<open>
  What every run of the save coordinator does to the database, whatever the form: the
  next automatic keys only grow, a key that is not in use and lies below the next
  automatic key stays out of use, and freshness is kept.
\<close>

definition extends_db :: "database \<Rightarrow> database \<Rightarrow> bool" where
  "extends_db db db' =
    ((\<forall>m. next_id db m \<le> next_id db' m) \<and>
     (\<forall>k. rows db k = None \<and> below_next db k \<longrightarrow> rows db' k = None) \<and>
     (fresh db \<longrightarrow> fresh db'))"

text \<open>
  The instances that \<open>existing\<close> holds: of the child model, under their own primary key,
  which lies below the next automatic key.
\<close>

definition existing_ok :: "foreign_key_field \<Rightarrow> database \<Rightarrow> (val \<rightharpoonup> obj) \<Rightarrow> bool" where
  "existing_ok fk db ex =
    (\<forall>v ob. ex v = Some ob \<longrightarrow>
       obj_class ob = fk_model_class fk \<and> get_pk_value ob = v \<and>
       below_next db (mc_name (fk_model_class fk), v))"










section \<open>Example inputs\<close>

definition plain_field :: "string \<Rightarrow> string \<Rightarrow> string list \<Rightarrow> model_field" where
  "plain_field nm c bs =
    \<lparr> name = nm, cls = c, bases = bs, null = False, choices = None, default = VNone,
      verbose_name = VNone, help_text = VNone, rel_model = [], wtf_field = None \<rparr>"

definition default_converter :: model_converter where
  "default_converter = ModelConverter_init [] [] Map.empty"

definition nullable_choice_field :: model_field where
  "nullable_choice_field =
    (plain_field ''status'' ''CharField'' [''Field''])
      \<lparr> null := True, choices := Some [(VStr ''a'', ''Active'')] \<rparr>"

definition nullable_char_field :: model_field where
  "nullable_char_field = (plain_field ''title'' ''CharField'' [''Field'']) \<lparr> null := True \<rparr>"

definition nullable_datetime_field :: model_field where
  "nullable_datetime_field =
    (plain_field ''created'' ''DateTimeField'' [''Field'']) \<lparr> null := True \<rparr>"




definition uuid_field :: model_field where
  "uuid_field = plain_field ''secret'' ''UUIDField'' [''Field'']"

text \<open>
  A model with a foreign key to itself: \<open>Category.parent\<close>, with related name
  \<open>children\<close>.
\<close>

definition category_class :: model_class where
  "category_class =
    \<lparr> mc_name = ''Category'', mc_pk = ''id'', mc_fields = [''name'', ''parent''],
      mc_defaults = Map.empty \<rparr>"

definition parent_key :: foreign_key_field where
  "parent_key =
    \<lparr> fk_name = ''parent'', fk_model_class = category_class, fk_related_name = ''children'' \<rparr>"

definition category_fields :: "model_field list" where
  "category_fields =
    [plain_field ''id'' ''PrimaryKeyField'' [''IntegerField'', ''Field''],
     plain_field ''name'' ''CharField'' [''Field''],
     (plain_field ''parent'' ''ForeignKeyField'' [''IntegerField'', ''Field''])
       \<lparr> null := True, rel_model := ''Category'' \<rparr>]"

definition category_schema :: schema where
  "category_schema =
    (\<lambda>m. if m = ''Category''
         then \<lparr> sorted_fields = category_fields, reverse_rel = [(''children'', parent_key)] \<rparr>
         else \<lparr> sorted_fields = [], reverse_rel = [] \<rparr>)"

text \<open>A blog with entries: \<open>Entry.blog\<close> points to \<open>Blog\<close>, with related name \<open>entries\<close>.\<close>

definition entry_class :: model_class where
  "entry_class =
    \<lparr> mc_name = ''Entry'', mc_pk = ''id'', mc_fields = [''blog'', ''text''],
      mc_defaults = Map.empty \<rparr>"

definition blog_class :: model_class where
  "blog_class =
    \<lparr> mc_name = ''Blog'', mc_pk = ''id'', mc_fields = [''title''], mc_defaults = Map.empty \<rparr>"

definition blog_key :: foreign_key_field where
  "blog_key = \<lparr> fk_name = ''blog'', fk_model_class = entry_class, fk_related_name = ''entries'' \<rparr>"

definition blog_schema :: schema where
  "blog_schema =
    (\<lambda>m. if m = ''Blog''
         then \<lparr> sorted_fields =
                  [plain_field ''id'' ''PrimaryKeyField'' [''IntegerField'', ''Field''],
                   plain_field ''title'' ''CharField'' [''Field'']],
                reverse_rel = [(''entries'', blog_key)] \<rparr>
         else if m = ''Entry''
         then \<lparr> sorted_fields =
                  [plain_field ''id'' ''PrimaryKeyField'' [''IntegerField'', ''Field''],
                   (plain_field ''blog'' ''ForeignKeyField'' [''IntegerField'', ''Field''])
                     \<lparr> rel_model := ''Blog'' \<rparr>,
                   plain_field ''text'' ''TextField'' [''Field'']],
                reverse_rel = [] \<rparr>
         else \<lparr> sorted_fields = [], reverse_rel = [] \<rparr>)"

definition blog_rank :: "string \<Rightarrow> nat" where
  "blog_rank m = (if m = ''Blog'' then 1 else 0)"

text \<open>
  A database with two blogs and two entries, entry 5 of blog 1 and entry 6 of blog 2,
  and blog 1 as the parent instance.
\<close>

definition blog_db :: database where
  "blog_db =
    \<lparr> rows =
        [(''Blog'', VInt 1) \<mapsto> [''id'' \<mapsto> VInt 1, ''title'' \<mapsto> VStr ''first''],
         (''Blog'', VInt 2) \<mapsto> [''id'' \<mapsto> VInt 2, ''title'' \<mapsto> VStr ''second''],
         (''Entry'', VInt 5) \<mapsto> [''id'' \<mapsto> VInt 5, ''blog'' \<mapsto> VInt 1, ''text'' \<mapsto> VStr ''mine''],
         (''Entry'', VInt 6) \<mapsto> [''id'' \<mapsto> VInt 6, ''blog'' \<mapsto> VInt 2, ''text'' \<mapsto> VStr ''theirs'']],
      next_id = (\<lambda>m. 10) \<rparr>"

definition blog1 :: obj where
  "blog1 = \<lparr> obj_class = blog_class,
             obj_data = [''id'' \<mapsto> VInt 1, ''title'' \<mapsto> VStr ''first''] \<rparr>"

text \<open>An entry subform: identifier, text and delete flag, as the converter generates it.\<close>

definition entry_form :: "val \<Rightarrow> string \<Rightarrow> bool \<Rightarrow> bound_form" where
  "entry_form pk txt del =
    Form [(''id'', BoundField pk), (''text'', BoundField (VStr txt)),
          (''delete_'', BoundField (py_bool del))]"

text \<open>The same with a field for the foreign key, as a hand-written subform may have.\<close>

definition entry_form_with_blog :: "val \<Rightarrow> val \<Rightarrow> string \<Rightarrow> bool \<Rightarrow> bound_form" where
  "entry_form_with_blog pk blog txt del =
    Form [(''id'', BoundField pk), (''blog'', BoundField blog), (''text'', BoundField (VStr txt)),
          (''delete_'', BoundField (py_bool del))]"

definition blog_form :: "string \<Rightarrow> bound_form list \<Rightarrow> bound_form" where
  "blog_form title entries =
    Form [(''title'', BoundField (VStr title)),
          (''entries'', BoundModelListField blog_key entries)]"

section \<open>Properties of the schema converter\<close>

lemmas example_simps =
  convert_def convert_kwargs_def initial_kwargs_def convert_default_def isinstance_def
  plain_field_def default_converter_def ModelConverter_init_def dict_update_def defaults_def
  coerce_defaults_def required_def choices_truthy_def issubclass_FormField_def
  handle_foreign_key_def positional_clash_def call_with_def type_repr_def py_bool_def

subsection \<open>Keyword arguments\<close>

lemma initial_validators:
  "initial_kwargs field fa ''validators'' = Some (KValidators vs) \<Longrightarrow> vs = given_validators fa"
  by (auto simp: initial_kwargs_def given_validators_def map_add_def split: option.splits kwarg.splits)

lemma initial_filters:
  "initial_kwargs field fa ''filters'' = Some (KFilters fs) \<Longrightarrow> fs = given_filters fa"
  by (auto simp: initial_kwargs_def given_filters_def map_add_def split: option.splits kwarg.splits)

lemma convert_kwargs_validators:
  assumes "convert_kwargs field fa = Inr kw"
  shows "kw ''validators'' = Some (KValidators (given_validators fa @
           (if (null field \<or> default field \<noteq> VNone) \<and> \<not> choices_truthy (choices field) then [Optional]
            else if \<exists>c \<in> set required. isinstance field c then [Required] else [])))"
  using assms unfolding convert_kwargs_def Let_def
  by (auto split: option.splits kwarg.splits if_splits sum.splits dest: initial_validators)

lemma convert_kwargs_filters_null:
  assumes "convert_kwargs field fa = Inr kw" "null field"
  shows "kw ''filters'' = Some (KFilters (given_filters fa @ [handle_null_filter]))"
  using assms unfolding convert_kwargs_def Let_def
  by (auto split: option.splits kwarg.splits if_splits sum.splits dest: initial_filters)

lemma convert_kwargs_filters_not_null:
  assumes "convert_kwargs field fa = Inr kw" "\<not> null field"
  shows "kw ''filters'' = initial_kwargs field fa ''filters''"
  using assms unfolding convert_kwargs_def Let_def
  by (auto split: option.splits kwarg.splits if_splits sum.splits)

lemma convert_default_keeps:
  assumes "convert_default self c w field kw = Inr (n, ff)" "k \<notin> {''filters'', ''choices'', ''coerce'', ''allow_blank''}"
  shows "\<exists>c' kw'. ff = UnboundField c' kw' \<and> kw' k = kw k"
  using assms
  by (auto simp: convert_default_def Let_def split: option.splits if_splits)

lemma convert_default_filters:
  assumes "convert_default self c w field kw = Inr (n, ff)"
  shows "\<exists>c' kw'. ff = UnboundField c' kw' \<and> kw' ''filters'' = (if issubclass_FormField w then None else kw ''filters'')"
  using assms
  by (auto simp: convert_default_def Let_def split: option.splits if_splits)

lemma handle_foreign_key_keeps:
  assumes "handle_foreign_key model field kw = Inr (n, ff)" "k \<notin> {''allow_blank'', ''query'', ''model''}"
  shows "\<exists>c' kw'. ff = UnboundField c' kw' \<and> kw' k = kw k"
  using assms
  by (auto simp: handle_foreign_key_def positional_clash_def call_with_def Let_def
      split: option.splits if_splits)

lemma convert_converters_find:
  "convert_converters cs model field kw =
     (case List.find (\<lambda>(c, h). isinstance field c) cs of None \<Rightarrow> None | Some (c, h) \<Rightarrow> Some (h model field kw))"
  by (induction cs) auto

lemma convert_defaults_find:
  "convert_defaults tbl self field kw =
     (case List.find (\<lambda>(c, w). isinstance field c) tbl of None \<Rightarrow> None
      | Some (c, w) \<Rightarrow> Some (convert_default self c w field kw))"
  by (induction tbl) auto

subsection \<open>Optional validator\<close>

text \<open>
  C5, as the code contradicts it: a nullable \<open>CharField\<close> that declares choices is not
  given \<open>Optional\<close>; the branch for \<open>required\<close> classes gives it \<open>Required\<close>.
\<close>

theorem nullable_choice_field_required:
  "null nullable_choice_field \<and>
   (case convert default_converter ''Model'' nullable_choice_field None of
      Inr (n, UnboundField c kw) \<Rightarrow> kw ''validators'' = Some (KValidators [Required])
    | _ \<Rightarrow> False)"
  by (simp add: example_simps nullable_choice_field_def)

lemma builtin_keeps_validators:
  assumes "builtin_converter self field" "convert_kwargs field fa = Inr kw"
    "convert self model field fa = Inr (n, ff)"
  shows "\<exists>c kw'. ff = UnboundField c kw' \<and> kw' ''validators'' = kw ''validators''"
proof (cases "isinstance field ''ForeignKeyField''")
  case True
  with assms have "handle_foreign_key model field kw = Inr (n, ff)"
    by (simp add: convert_def builtin_converter_def)
  from handle_foreign_key_keeps[OF this, of "''validators''"] show ?thesis by simp
next
  case False
  with assms obtain c w where "convert_default self c w field kw = Inr (n, ff)"
    by (auto simp: convert_def builtin_converter_def convert_defaults_find split: option.splits)
  from convert_default_keeps[OF this, of "''validators''"] show ?thesis by simp
qed

text \<open>
  C5, amended: for every nullable field without (non-empty) choices, the keyword
  arguments that \<open>convert\<close> builds end the validators with \<open>Optional\<close>, after the
  validators that \<open>field_args\<close> supplies; and the form field that the foreign-key handler
  or the default table constructs carries exactly these validators.
\<close>

theorem nullable_without_choices_optional:
  assumes "null field" "\<not> choices_truthy (choices field)"
  shows "(\<forall>kw. convert_kwargs field fa = Inr kw \<longrightarrow>
            kw ''validators'' = Some (KValidators (given_validators fa @ [Optional]))) \<and>
         (\<forall>n ff. builtin_converter self field \<and> convert self model field fa = Inr (n, ff) \<longrightarrow>
            (\<exists>c kw. ff = UnboundField c kw \<and>
               kw ''validators'' = Some (KValidators (given_validators fa @ [Optional]))))"
proof (intro conjI allI impI)
  fix kw assume "convert_kwargs field fa = Inr kw"
  from convert_kwargs_validators[OF this] assms
  show "kw ''validators'' = Some (KValidators (given_validators fa @ [Optional]))" by simp
next
  fix n ff assume a: "builtin_converter self field \<and> convert self model field fa = Inr (n, ff)"
  then obtain kw where kw: "convert_kwargs field fa = Inr kw"
    by (auto simp: convert_def split: sum.splits)
  from convert_kwargs_validators[OF kw] assms
  have "kw ''validators'' = Some (KValidators (given_validators fa @ [Optional]))" by simp
  with builtin_keeps_validators[OF _ kw, of self model n ff] a
  show "\<exists>c kw. ff = UnboundField c kw \<and>
               kw ''validators'' = Some (KValidators (given_validators fa @ [Optional]))" by auto
qed

theorem nullable_without_choices_optional_witness:
  "null nullable_char_field \<and> \<not> choices_truthy (choices nullable_char_field) \<and>
   builtin_converter default_converter nullable_char_field \<and>
   (\<exists>c kw. convert default_converter ''Model'' nullable_char_field None = Inr (''title'', UnboundField c kw) \<and>
      kw ''validators'' = Some (KValidators [Optional]))"
proof -
  have h: "null nullable_char_field" "\<not> choices_truthy (choices nullable_char_field)"
    by (simp_all add: nullable_char_field_def plain_field_def choices_truthy_def)
  have b: "builtin_converter default_converter nullable_char_field"
    by (simp add: builtin_converter_def nullable_char_field_def plain_field_def default_converter_def
        ModelConverter_init_def dict_update_def)
  obtain ff where c: "convert default_converter ''Model'' nullable_char_field None = Inr (''title'', ff)"
    by (simp add: example_simps nullable_char_field_def)
  from nullable_without_choices_optional[OF h, of None default_converter "''Model''"] b c
  obtain c' kw where "ff = UnboundField c' kw" "kw ''validators'' = Some (KValidators [Optional])"
    by (auto simp: given_validators_def)
  with h b c show ?thesis by auto
qed

subsection \<open>The filter for empty strings\<close>

text \<open>
  C10, as the code contradicts it: a nullable \<open>DateTimeField\<close> is converted to a
  \<open>WPDateTimeField\<close>, a nested form, and line 156 removes the filters before the field
  is constructed.
\<close>

theorem nullable_datetime_without_filter:
  "null nullable_datetime_field \<and>
   (case convert default_converter ''Model'' nullable_datetime_field None of
      Inr (n, UnboundField c kw) \<Rightarrow> c = ''WPDateTimeField'' \<and> kw ''filters'' = None
    | _ \<Rightarrow> False)"
  by (simp add: example_simps nullable_datetime_field_def)

lemma builtin_filters:
  assumes "builtin_converter self field" "convert_kwargs field fa = Inr kw"
    "convert self model field fa = Inr (n, ff)"
  shows "\<exists>c kw'. ff = UnboundField c kw' \<and>
           kw' ''filters'' = (if nested_form_widget field then None else kw ''filters'')"
proof (cases "isinstance field ''ForeignKeyField''")
  case True
  with assms have "handle_foreign_key model field kw = Inr (n, ff)"
    by (simp add: convert_def builtin_converter_def)
  from handle_foreign_key_keeps[OF this, of "''filters''"] True show ?thesis
    by (auto simp: nested_form_widget_def)
next
  case False
  with assms obtain c w where f: "first_match field defaults = Some (c, w)"
    and cw: "convert_default self c w field kw = Inr (n, ff)"
    by (auto simp: convert_def builtin_converter_def convert_defaults_find first_match_def
        split: option.splits)
  from convert_default_filters[OF cw] f False show ?thesis
    by (auto simp: nested_form_widget_def)
qed

text \<open>
  C10, amended: \<open>handle_null_filter\<close> maps the empty string to \<open>None\<close> and every other
  value to itself. For a nullable field \<open>convert\<close> appends it to the filters of the keyword
  arguments; for a field that is not nullable the filters stay those of \<open>field_args\<close>
  (none by default). The foreign-key handler and the default table construct the form
  field with these filters, except that a default-table widget that is a nested form is
  constructed without any.
\<close>

theorem null_filter_attached:
  assumes "convert self model field fa = Inr (n, ff)"
  shows "handle_null_filter (VStr []) = VNone \<and>
   (\<forall>v. v \<noteq> VStr [] \<longrightarrow> handle_null_filter v = v) \<and>
   (\<exists>kw. convert_kwargs field fa = Inr kw \<and>
      kw ''filters'' =
        (if null field then Some (KFilters (given_filters fa @ [handle_null_filter]))
         else initial_kwargs field fa ''filters'') \<and>
      (builtin_converter self field \<longrightarrow>
        (\<exists>c kw'. ff = UnboundField c kw' \<and>
           kw' ''filters'' = (if nested_form_widget field then None else kw ''filters''))))"
proof -
  from assms obtain kw where kw: "convert_kwargs field fa = Inr kw"
    by (auto simp: convert_def split: sum.splits)
  have "kw ''filters'' =
        (if null field then Some (KFilters (given_filters fa @ [handle_null_filter]))
         else initial_kwargs field fa ''filters'')"
    using convert_kwargs_filters_null[OF kw] convert_kwargs_filters_not_null[OF kw] by simp
  moreover have "builtin_converter self field \<longrightarrow>
        (\<exists>c kw'. ff = UnboundField c kw' \<and>
           kw' ''filters'' = (if nested_form_widget field then None else kw ''filters''))"
    using builtin_filters[OF _ kw assms] by blast
  ultimately show ?thesis using kw by (simp add: handle_null_filter_def)
qed

theorem null_filter_attached_witness:
  "\<exists>kw. convert default_converter ''Model'' nullable_char_field None
          = Inr (''title'', UnboundField ''TextField'' kw) \<and>
        kw ''filters'' = Some (KFilters [handle_null_filter]) \<and>
        run_filters [handle_null_filter] (VStr []) = VNone"
proof -
  obtain kw0 where c: "convert default_converter ''Model'' nullable_char_field None
      = Inr (''title'', UnboundField ''TextField'' kw0)"
    by (simp add: example_simps nullable_char_field_def)
  have b: "builtin_converter default_converter nullable_char_field"
    by (simp add: builtin_converter_def nullable_char_field_def plain_field_def default_converter_def
        ModelConverter_init_def dict_update_def)
  have n: "\<not> nested_form_widget nullable_char_field" "null nullable_char_field"
    by (simp_all add: nested_form_widget_def first_match_def nullable_char_field_def plain_field_def
        defaults_def isinstance_def issubclass_FormField_def)
  from null_filter_attached[OF c] b n
  have "kw0 ''filters'' = Some (KFilters [handle_null_filter])"
    by (auto simp: given_filters_def)
  with c show ?thesis by (auto simp: run_filters_def handle_null_filter_def)
qed

subsection \<open>The order of the conversion rules\<close>


lemma convert_dispatch:
  assumes "convert_kwargs field fa = Inr kw"
  shows "convert self model field fa =
    (case overrides self (name field) of
       Some ov \<Rightarrow> (case ov kw of Inl e \<Rightarrow> Inl e | Inr ff \<Rightarrow> Inr (name field, ff))
     | None \<Rightarrow>
        (case wtf_field field of
           Some hook \<Rightarrow> (case hook model kw of Inl e \<Rightarrow> Inl e | Inr ff \<Rightarrow> Inr (name field, ff))
         | None \<Rightarrow>
            (case first_match field (converters self) of
               Some (c, h) \<Rightarrow> h model field kw
             | None \<Rightarrow>
                (case first_match field defaults of
                   Some (c, w) \<Rightarrow> convert_default self c w field kw
                 | None \<Rightarrow> Inl (AttributeError (no_conversion_message field))))))"
  unfolding convert_def assms convert_converters_find convert_defaults_find first_match_def
    no_conversion_message_def
  by (simp split: option.splits)






subsection \<open>The unconvertible field\<close>

text \<open>
  C9, as the code contradicts it: the message is formatted from \<open>type(field)\<close>; for the
  field named \<open>secret\<close> of class \<open>UUIDField\<close> it does not contain the field's name.
\<close>

theorem no_conversion_message_omits_name:
  "convert default_converter ''Model'' uuid_field None =
     Inl (AttributeError (''There is not possible conversion for '' @ [CHR 0x27] @ ''<class ''
            @ [CHR 0x27] @ ''UUIDField'' @ [CHR 0x27] @ ''>'' @ [CHR 0x27])) \<and>
   name uuid_field = ''secret'' \<and>
   \<not> sublist (name uuid_field) (''There is not possible conversion for '' @ [CHR 0x27] @ ''<class ''
            @ [CHR 0x27] @ ''UUIDField'' @ [CHR 0x27] @ ''>'' @ [CHR 0x27])"
  by (simp add: example_simps uuid_field_def sublist_code)

text \<open>
  C9, amended: a field with no override, no \<open>wtf_field\<close> hook, no matching converter and
  no matching entry of the default table makes \<open>convert\<close> raise; with well-formed
  \<open>field_args\<close> the error is the \<open>AttributeError\<close> whose message names the field's class.
\<close>

theorem no_conversion_raises:
  assumes "overrides self (name field) = None" "wtf_field field = None"
    "\<forall>(c, h) \<in> set (converters self). \<not> isinstance field c"
    "\<forall>(c, w) \<in> set defaults. \<not> isinstance field c"
  shows "(\<exists>e. convert self model field fa = Inl e) \<and>
         (\<forall>kw. convert_kwargs field fa = Inr kw \<longrightarrow>
            convert self model field fa = Inl (AttributeError (no_conversion_message field))) \<and>
         no_conversion_message field =
           ''There is not possible conversion for '' @ [CHR 0x27] @ ''<class '' @ [CHR 0x27]
             @ cls field @ [CHR 0x27] @ ''>'' @ [CHR 0x27]"
proof -
  have a: "first_match field (converters self) = None" "first_match field defaults = None"
    using assms(3,4) by (auto simp: first_match_def find_None_iff)
  have b: "convert_kwargs field fa = Inr kw \<Longrightarrow>
            convert self model field fa = Inl (AttributeError (no_conversion_message field))" for kw
    using convert_dispatch[of field fa kw self model] assms(1,2) a by simp
  have c: "\<exists>e. convert self model field fa = Inl e"
  proof (cases "convert_kwargs field fa")
    case (Inl e) then show ?thesis by (simp add: convert_def)
  next
    case (Inr kw) with b show ?thesis by blast
  qed
  show ?thesis using b c by (simp add: no_conversion_message_def type_repr_def)
qed

theorem no_conversion_raises_witness:
  "convert default_converter ''Model'' uuid_field None =
     Inl (AttributeError (no_conversion_message uuid_field))"
proof -
  have h: "overrides default_converter (name uuid_field) = None" "wtf_field uuid_field = None"
    "\<forall>(c, h) \<in> set (converters default_converter). \<not> isinstance uuid_field c"
    "\<forall>(c, w) \<in> set defaults. \<not> isinstance uuid_field c"
    by (simp_all add: default_converter_def ModelConverter_init_def dict_update_def uuid_field_def
        plain_field_def isinstance_def defaults_def)
  have k: "\<exists>kw. convert_kwargs uuid_field None = Inr kw"
    by (simp add: convert_kwargs_def initial_kwargs_def uuid_field_def plain_field_def
        choices_truthy_def required_def isinstance_def)
  from no_conversion_raises[OF h, of "''Model''" None] k show ?thesis by auto
qed

subsection \<open>The recursion over nested forms\<close>

lemma convert_inlines_returns:
  assumes "\<And>model allow_pk only exclude fa ad ii depth.
             rank model < n \<Longrightarrow>
             form n self sch model allow_pk only exclude fa ad ii depth \<noteq> None"
    and "\<forall>(k, fk) \<in> set inl. rank (mc_name (fk_model_class fk)) < n"
  shows "convert_inlines n self sch inl only exclude depth fd \<noteq> None"
  using assms(2)
proof (induction inl arbitrary: fd)
  case Nil
  then show ?case by simp
next
  case (Cons a inl)
  obtain nm fk where a: "a = (nm, fk)" by (cases a)
  from Cons.prems a have r: "rank (mc_name (fk_model_class fk)) < n" by simp
  from Cons.prems have rest: "\<forall>(k, fk) \<in> set inl. rank (mc_name (fk_model_class fk)) < n" by simp
  show ?case
    using assms(1)[OF r] Cons.IH[OF rest]
    by (simp add: a Let_def split: option.splits sum.splits)
qed

lemma set_select_fields: "xs \<noteq> [] \<or> allow_pk \<Longrightarrow> set (select_fields allow_pk only exclude xs) \<subseteq> set xs"
  by (auto simp: select_fields_def Let_def dest: list.set_sel(2))

lemma set_select_inlines: "set (select_inlines only exclude xs) \<subseteq> set xs"
  by (auto simp: select_inlines_def Let_def)

lemma form_None_iff:
  "form fuel self sch model allow_pk only exclude fa ad ii depth = None \<longleftrightarrow>
   convert_fields fuel self sch model allow_pk only exclude fa ii depth = None"
  by (simp split: option.splits sum.splits)

lemma convert_fields_returns:
  assumes "\<forall>m. \<forall>(k, fk) \<in> set (reverse_rel (sch m)). rank (mc_name (fk_model_class fk)) < rank m"
  shows "rank model < n \<Longrightarrow>
         convert_fields n self sch model allow_pk only exclude fa ii depth \<noteq> None"
proof (induction n arbitrary: model allow_pk only exclude fa ii depth)
  case 0
  then show ?case by simp
next
  case (Suc n)
  have form_ok: "form n self sch model' allow_pk' only' exclude' fa' ad' ii' depth' \<noteq> None"
    if "rank model' < n" for model' allow_pk' only' exclude' fa' ad' ii' depth'
    using Suc.IH[OF that, of allow_pk' only' exclude' fa' ii' depth']
    by (simp split: option.splits sum.splits)
  have "\<forall>(k, fk) \<in> set (select_inlines only exclude (reverse_rel (sch model))).
          rank (mc_name (fk_model_class fk)) < n"
    using assms set_select_inlines[of only exclude "reverse_rel (sch model)"] Suc.prems
    by fastforce
  from convert_inlines_returns[where rank = rank, OF form_ok this]
  have inl_ok: "convert_inlines n self sch (select_inlines only exclude (reverse_rel (sch model)))
                  only exclude depth fd \<noteq> None" for fd .
  show ?case
  proof (cases "convert_model_fields self model
                  (select_fields allow_pk only exclude (sorted_fields (sch model)))
                  (case fa of None \<Rightarrow> Map.empty | Some a \<Rightarrow> a) []")
    case (Inl e)
    then show ?thesis by (simp add: Let_def)
  next
    case (Inr fd)
    then show ?thesis using inl_ok[of fd] by (simp add: Let_def)
  qed
qed

lemma convert_inlines_keeps:
  assumes "convert_inlines fuel self sch inl only exclude depth fd = Some (Inr fd')"
    and "nm \<notin> fst ` set inl"
  shows "map_of fd' nm = map_of fd nm"
  using assms
proof (induction inl arbitrary: fd)
  case Nil
  then show ?case by simp
next
  case (Cons a inl)
  obtain k fk where a: "a = (k, fk)" by (cases a)
  from Cons.prems(1) obtain fc where
    rest: "convert_inlines fuel self sch inl only exclude depth
             (AList.update k (ModelListField fk fc (depth + 1)) fd) = Some (Inr fd')"
    by (auto simp: a split: option.splits sum.splits)
  from Cons.prems(2) have "nm \<noteq> k" "nm \<notin> fst ` set inl" by (auto simp: a)
  with Cons.IH[OF rest] show ?case by (simp add: update_conv')
qed

lemma convert_inlines_tracks_depth:
  assumes "convert_inlines fuel self sch inl only exclude depth fd = Some (Inr fd')"
    and "distinct (map fst inl)"
  shows "\<forall>(nm, fk) \<in> set inl.
           \<exists>fc. map_of fd' nm = Some (ModelListField fk fc (depth + 1)) \<and>
                form fuel self sch (mc_name (fk_model_class fk)) True (sub_only_of nm only)
                  (Some (sub_exclude_of nm fk exclude)) (Some (inline_field_args fk)) True True
                  (depth + 1) = Some (Inr fc)"
  using assms
proof (induction inl arbitrary: fd)
  case Nil
  then show ?case by simp
next
  case (Cons a inl)
  obtain k fk where a: "a = (k, fk)" by (cases a)
  from Cons.prems(1) obtain fc where
    fc: "form fuel self sch (mc_name (fk_model_class fk)) True (sub_only_of k only)
           (Some (sub_exclude_of k fk exclude)) (Some (inline_field_args fk)) True True
           (depth + 1) = Some (Inr fc)" and
    rest: "convert_inlines fuel self sch inl only exclude depth
             (AList.update k (ModelListField fk fc (depth + 1)) fd) = Some (Inr fd')"
    by (auto simp: a split: option.splits sum.splits)
  from Cons.prems(2) have d: "k \<notin> fst ` set inl" "distinct (map fst inl)" by (simp_all add: a)
  from convert_inlines_keeps[OF rest d(1)]
  have "map_of fd' k = Some (ModelListField fk fc (depth + 1))" by (simp add: update_conv')
  with fc Cons.IH[OF rest d(2)] show ?case by (auto simp: a)
qed

lemma distinct_sort_key_fst:
  assumes "distinct (map fst xs)"
  shows "distinct (map fst (sort_key fst xs))"
  using assms by (simp add: distinct_map)

lemma distinct_select_inlines:
  "distinct (map fst xs) \<Longrightarrow> distinct (map fst (select_inlines only exclude xs))"
  by (auto simp: select_inlines_def Let_def distinct_map_filter distinct_sort_key_fst)

lemma convert_model_fields_returns:
  assumes "\<forall>f \<in> set fs. \<exists>r. convert self model f (fa (name f)) = Inr r"
  shows "\<exists>fd'. convert_model_fields self model fs fa fd = Inr fd'"
  using assms by (induction fs arbitrary: fd) auto

lemma category_fields_convertible:
  assumes "fa = Map.empty \<or> fa = inline_field_args parent_key"
  shows "\<forall>f \<in> set category_fields. \<exists>r. convert default_converter ''Category'' f (fa (name f)) = Inr r"
  using assms
  by (auto simp: category_fields_def example_simps inline_field_args_def parent_key_def
      category_class_def)

lemma category_inlines:
  assumes "exclude = None \<or> exclude = Some [''parent'']"
  shows "select_inlines None exclude (reverse_rel (category_schema ''Category''))
         = [(''children'', parent_key)]"
  using assms by (auto simp: select_inlines_def list_truthy_def category_schema_def)

lemma category_sub_exclude:
  assumes "exclude = None \<or> exclude = Some [''parent'']"
  shows "sub_exclude_of ''children'' parent_key exclude = [''parent'']"
  using assms by (auto simp: sub_exclude_of_def list_truthy_def sub_names_def parent_key_def)

lemma category_convert_fields_diverges:
  "(exclude = None \<or> exclude = Some [''parent'']) \<Longrightarrow>
   (fa = None \<or> fa = Some (inline_field_args parent_key)) \<Longrightarrow>
   convert_fields fuel default_converter category_schema ''Category'' allow_pk None exclude fa
     True depth = None"
proof (induction fuel arbitrary: exclude fa allow_pk depth)
  case 0
  then show ?case by simp
next
  case (Suc fuel)
  have ih: "convert_fields fuel default_converter category_schema ''Category'' True None
      (Some [''parent'']) (Some (inline_field_args parent_key)) True (depth + 1) = None"
    by (rule Suc.IH; rule disjI2; rule refl)
  have names: "mc_name (fk_model_class parent_key) = ''Category''"
    by (simp add: parent_key_def category_class_def)
  have inl: "convert_inlines fuel default_converter category_schema [(''children'', parent_key)]
      None exclude depth fd = None" for fd
    by (simp only: convert_inlines.simps form.simps names category_sub_exclude[OF Suc.prems(1)]
        sub_only_of_def list_truthy_def option.case if_False ih)
  let ?fa = "case fa of None \<Rightarrow> Map.empty | Some a \<Rightarrow> a"
  have fa: "?fa = Map.empty \<or> ?fa = inline_field_args parent_key"
    using Suc.prems(2) by auto
  have f: "sorted_fields (category_schema ''Category'') = category_fields"
    "category_fields \<noteq> []"
    by (simp_all add: category_schema_def category_fields_def)
  have "\<exists>fd. convert_model_fields default_converter ''Category''
               (select_fields allow_pk None exclude category_fields) ?fa [] = Inr fd"
    using category_fields_convertible[OF fa] set_select_fields[of category_fields allow_pk None exclude] f(2)
    by (intro convert_model_fields_returns) blast
  then obtain fd where
    fd: "convert_model_fields default_converter ''Category''
               (select_fields allow_pk None exclude category_fields) ?fa [] = Inr fd" ..
  have g: "(\<not> allow_pk \<and> category_fields = []) = False"
    using f(2) by simp
  show ?case
    by (simp only: convert_fields.simps Let_def f(1) g if_False if_True
        category_inlines[OF Suc.prems(1)] fd sum.case inl)
qed

text \<open>
  C6, as the code contradicts it: the depth is passed on and stored (\<open>fields.py\<close>, line
  436), but nothing compares it or remembers the models already visited. For the model
  \<open>Category\<close> with a foreign key to itself,
  \<open>model_form(Category, include_inlines=True)\<close> calls \<open>form\<close> for \<open>Category\<close> again at every
  level, so no recursion budget lets it return.
\<close>

theorem self_reference_never_returns:
  "\<forall>fuel. model_form fuel category_schema ''Category'' False None None None False True = None"
  by (simp add: model_form_def category_convert_fields_diverges
      default_converter_def[symmetric])

text \<open>
  C6, amended: nested-form generation returns (a form class or an error) whenever the
  reverse relations are well-founded, that is, some rank of the models decreases along
  every reverse relation; a recursion budget of one more than the model's rank suffices.
  The recursion does track the depth: when \<open>convert_fields\<close> returns at depth \<open>d\<close>, each
  selected inline (of a model whose reverse relations have distinct names) is a
  \<open>ModelListField\<close> that stores \<open>d + 1\<close> and holds the form that \<open>form\<close> builds for the
  related model at depth \<open>d + 1\<close>. Nothing bounds the depth or compares it.
\<close>

theorem form_returns_on_ranked_schema:
  assumes "\<forall>m. \<forall>(k, fk) \<in> set (reverse_rel (sch m)). rank (mc_name (fk_model_class fk)) < rank m"
  shows "(\<exists>r. form (Suc (rank model)) self sch model allow_pk only exclude field_args
                allow_delete include_inlines depth = Some r) \<and>
         (\<forall>fuel fd.
            distinct (map fst (reverse_rel (sch model))) \<and>
            convert_fields (Suc fuel) self sch model allow_pk only exclude field_args True depth
              = Some (Inr fd) \<longrightarrow>
            (\<forall>(nm, fk) \<in> set (select_inlines only exclude (reverse_rel (sch model))).
               \<exists>fc. map_of fd nm = Some (ModelListField fk fc (depth + 1)) \<and>
                    form fuel self sch (mc_name (fk_model_class fk)) True (sub_only_of nm only)
                      (Some (sub_exclude_of nm fk exclude)) (Some (inline_field_args fk))
                      True True (depth + 1) = Some (Inr fc)))"
proof (intro conjI allI impI)
  have "form (Suc (rank model)) self sch model allow_pk only exclude field_args
          allow_delete include_inlines depth \<noteq> None"
    unfolding form_None_iff by (rule convert_fields_returns[OF assms]) simp
  then show "\<exists>r. form (Suc (rank model)) self sch model allow_pk only exclude field_args
                allow_delete include_inlines depth = Some r"
    by (simp only: not_None_eq)
next
  fix fuel fd
  assume a: "distinct (map fst (reverse_rel (sch model))) \<and>
             convert_fields (Suc fuel) self sch model allow_pk only exclude field_args True depth
               = Some (Inr fd)"
  then obtain fd0 where
    "convert_inlines fuel self sch (select_inlines only exclude (reverse_rel (sch model)))
       only exclude depth fd0 = Some (Inr fd)"
    by (auto simp: Let_def split: if_splits sum.splits)
  from convert_inlines_tracks_depth[OF this distinct_select_inlines] a
  show "\<forall>(nm, fk) \<in> set (select_inlines only exclude (reverse_rel (sch model))).
          \<exists>fc. map_of fd nm = Some (ModelListField fk fc (depth + 1)) \<and>
               form fuel self sch (mc_name (fk_model_class fk)) True (sub_only_of nm only)
                 (Some (sub_exclude_of nm fk exclude)) (Some (inline_field_args fk))
                 True True (depth + 1) = Some (Inr fc)"
    by blast
qed

theorem form_returns_on_ranked_schema_witness:
  "(\<exists>r. model_form 2 blog_schema ''Blog'' False None None None False True = Some r) \<and>
   (\<exists>fd fc. convert_fields 2 (ModelConverter_init [] [] Map.empty) blog_schema ''Blog''
              False None None None True 0 = Some (Inr fd) \<and>
            map_of fd ''entries'' = Some (ModelListField blog_key fc 1))"
proof -
  let ?self = "ModelConverter_init [] [] Map.empty"
  have rk: "\<forall>m. \<forall>(k, fk) \<in> set (reverse_rel (blog_schema m)).
          blog_rank (mc_name (fk_model_class fk)) < blog_rank m"
    by (simp add: blog_schema_def blog_rank_def blog_key_def entry_class_def)
  note t = form_returns_on_ranked_schema[OF rk, of "''Blog''" ?self False None None None _ _ 0]
  have two: "Suc (blog_rank ''Blog'') = 2" "(2::nat) = Suc (Suc 0)"
    by (simp_all add: blog_rank_def)
  from t[of False True] have a: "\<exists>r. model_form 2 blog_schema ''Blog'' False None None None False True = Some r"
    by (simp only: model_form_def two(1))
  have d: "distinct (map fst (reverse_rel (blog_schema ''Blog'')))"
    by (simp add: blog_schema_def)
  have inl: "(''entries'', blog_key) \<in> set (select_inlines None None (reverse_rel (blog_schema ''Blog'')))"
    by (simp add: select_inlines_def list_truthy_def blog_schema_def)
  have "\<exists>fd. convert_fields (Suc (Suc 0)) ?self blog_schema ''Blog'' False None None None True 0
          = Some (Inr fd)"
    by (simp add: example_simps blog_schema_def select_fields_def select_inlines_def
        list_truthy_def sub_only_of_def sub_exclude_of_def sub_names_def inline_field_args_def
        blog_key_def entry_class_def Let_def)
  then obtain fd where fd: "convert_fields (Suc (Suc 0)) ?self blog_schema ''Blog'' False None None
      None True 0 = Some (Inr fd)" ..
  from t[of False True] d fd inl
  obtain fc where "map_of fd ''entries'' = Some (ModelListField blog_key fc (0 + 1))"
    by blast
  with fd a show ?thesis by (auto simp: two(2))
qed
section \<open>Properties of the save coordinator\<close>

subsection \<open>Instances, rows and populating\<close>

lemma obj_class_setattr [simp]: "obj_class (setattr ob n v) = obj_class ob"
  by (simp add: setattr_def)

lemma obj_class_new_instance [simp]: "obj_class (new_instance c) = c"
  by (simp add: new_instance_def)

lemma obj_class_populate_fields:
  "obj_class (fold (\<lambda>(nm, fld) acc. case fld of BoundField v \<Rightarrow> setattr acc nm v
                                     | BoundModelListField fk es \<Rightarrow> acc) fs ob) = obj_class ob"
  by (induction fs arbitrary: ob) (auto split: bound_field.splits)

lemma obj_class_populate_obj [simp]: "obj_class (populate_obj f ob) = obj_class ob"
  by (simp add: populate_obj_def obj_class_populate_fields)

lemma populate_fields_last:
  assumes "map_of (map (\<lambda>(n, fld). (n, data_of fld)) (rev fs)) n = Some (DVal v)"
    and "n = mc_pk (obj_class ob) \<or> n \<in> set (mc_fields (obj_class ob))"
  shows "obj_data (fold (\<lambda>(nm, fld) acc. case fld of BoundField v \<Rightarrow> setattr acc nm v
                                     | BoundModelListField fk es \<Rightarrow> acc) fs ob) n = Some v"
  using assms
proof (induction fs rule: rev_induct)
  case Nil
  then show ?case by simp
next
  case (snoc x xs)
  obtain m fld where x: "x = (m, fld)" by (cases x)
  show ?case
  proof (cases "m = n")
    case True
    with snoc.prems x obtain w where "fld = BoundField w" "w = v"
      by (cases fld) auto
    with True x snoc.prems(2) show ?thesis
      by (simp add: setattr_def obj_class_populate_fields)
  next
    case False
    with snoc x show ?thesis
      by (cases fld) (auto simp: setattr_def obj_class_populate_fields)
  qed
qed

lemma populate_obj_data_given:
  assumes "form_data f n = Some (DVal v)"
    and "n = mc_pk (obj_class ob) \<or> n \<in> set (mc_fields (obj_class ob))"
  shows "obj_data (populate_obj f ob) n = Some v"
  using assms unfolding form_data_def populate_obj_def by (rule populate_fields_last)

lemma populate_fields_absent:
  assumes "n \<notin> fst ` set fs"
  shows "obj_data (fold (\<lambda>(nm, fld) acc. case fld of BoundField v \<Rightarrow> setattr acc nm v
                                     | BoundModelListField fk es \<Rightarrow> acc) fs ob) n = obj_data ob n"
  using assms
  by (induction fs arbitrary: ob) (auto simp: setattr_def split: bound_field.splits)

lemma form_data_None_iff: "form_data f n = None \<longleftrightarrow> n \<notin> fst ` set (fields_of f)"
  by (force simp: form_data_def map_of_eq_None_iff image_iff)

lemma populate_obj_data_absent:
  assumes "form_data f n = None"
  shows "obj_data (populate_obj f ob) n = obj_data ob n"
  using assms unfolding form_data_None_iff populate_obj_def by (rule populate_fields_absent)

lemma populate_obj_pk:
  assumes "form_data f (mc_pk (obj_class ob)) = Some (DVal v)"
  shows "get_pk_value (populate_obj f ob) = v"
  using populate_obj_data_given[OF assms] by (simp add: get_pk_value_def)

lemma save_insert:
  assumes "get_pk_value ob = VNone"
  shows "save ob db =
    (ob\<lparr> obj_data := (obj_data ob)(mc_pk (obj_class ob) \<mapsto> VInt (next_id db (mc_name (obj_class ob)))) \<rparr>,
     db\<lparr> rows := (rows db)((mc_name (obj_class ob), VInt (next_id db (mc_name (obj_class ob))))
                    \<mapsto> (obj_data ob)(mc_pk (obj_class ob) \<mapsto> VInt (next_id db (mc_name (obj_class ob))))),
         next_id := (next_id db)(mc_name (obj_class ob) := next_id db (mc_name (obj_class ob)) + 1) \<rparr>)"
  using assms by (simp add: save_def Let_def)

lemma save_update:
  assumes "get_pk_value ob \<noteq> VNone"
  shows "save ob db =
    (ob, case rows db (mc_name (obj_class ob), get_pk_value ob) of
           None \<Rightarrow> db
         | Some r \<Rightarrow> db\<lparr> rows := (rows db)((mc_name (obj_class ob), get_pk_value ob)
                              \<mapsto> r ++ ((obj_data ob)(mc_pk (obj_class ob) := None))) \<rparr>)"
  using assms by (simp add: save_def Let_def split: option.splits)


lemma save_keeps_set_pk:
  "save ob db = (ob', db') \<Longrightarrow> get_pk_value ob \<noteq> VNone \<Longrightarrow> ob' = ob"
  by (auto simp: save_def Let_def split: if_splits option.splits)

lemma save_to_returns:
  assumes "save_to self ob db = (Inr (), ob1, db1)"
  obtains dbm where "save (populate_obj self ob) db = (ob1, dbm)"
    and "save_inlines self ob1 dbm = (Inr (), db1)"
  using assms unfolding save_to_def save_to_body_def atomic_def
  by (auto simp: Let_def split: prod.splits sum.splits)

subsection \<open>The cases of one step of each loop\<close>

lemma save_fields_Cons_cases [consumes 1, case_names plain key_error entries_raise entries_ok]:
  assumes "save_fields ((nm, fld) # rest) ppk db = (r, db')"
  obtains v where "fld = BoundField v" "save_fields rest ppk db = (r, db')"
  | fk es where "fld = BoundModelListField fk es"
      "\<exists>e \<in> set es. form_data e (mc_pk (fk_model_class fk)) = None"
      "r = Inl (KeyError (mc_pk (fk_model_class fk)))" "db' = db"
  | fk es e where "fld = BoundModelListField fk es"
      "\<forall>e \<in> set es. form_data e (mc_pk (fk_model_class fk)) \<noteq> None"
      "save_entries fk ppk es (existing_of db fk ppk) db = (Inl e, db')" "r = Inl e"
  | fk es db1 where "fld = BoundModelListField fk es"
      "\<forall>e \<in> set es. form_data e (mc_pk (fk_model_class fk)) \<noteq> None"
      "save_entries fk ppk es (existing_of db fk ppk) db = (Inr (), db1)"
      "save_fields rest ppk db1 = (r, db')"
proof (cases fld)
  case (BoundField v)
  with assms that(1) show ?thesis by simp
next
  case (BoundModelListField fk es)
  show ?thesis
  proof (cases "\<exists>e \<in> set es. form_data e (mc_pk (fk_model_class fk)) = None")
    case True
    then have "save_fields ((nm, fld) # rest) ppk db = (Inl (KeyError (mc_pk (fk_model_class fk))), db)"
      unfolding BoundModelListField by (simp add: Let_def)
    with assms have "r = Inl (KeyError (mc_pk (fk_model_class fk)))" "db' = db" by simp_all
    with that(2)[OF BoundModelListField True] show ?thesis .
  next
    case False
    then have all: "\<forall>e \<in> set es. form_data e (mc_pk (fk_model_class fk)) \<noteq> None" by simp
    have eq: "save_fields ((nm, fld) # rest) ppk db =
        (case save_entries fk ppk es (existing_of db fk ppk) db of
           (Inl e, db') \<Rightarrow> (Inl e, db')
         | (Inr u, db') \<Rightarrow> save_fields rest ppk db')"
    proof -
      have c: "(\<exists>e \<in> set es. form_data e (mc_pk (fk_model_class fk)) = None) = False"
        using False by simp
      show ?thesis
        unfolding BoundModelListField by (simp only: save_fields.simps Let_def c if_False)
    qed
    obtain r1 db1 where s: "save_entries fk ppk es (existing_of db fk ppk) db = (r1, db1)"
      by (cases "save_entries fk ppk es (existing_of db fk ppk) db")
    show ?thesis
    proof (cases r1)
      case (Inl e)
      have "save_fields ((nm, fld) # rest) ppk db = (Inl e, db1)"
        unfolding eq s Inl by simp
      with assms have "r = Inl e" "db1 = db'" by simp_all
      with that(3)[OF BoundModelListField all] s Inl show ?thesis by simp
    next
      case (Inr u)
      have "save_fields ((nm, fld) # rest) ppk db = save_fields rest ppk db1"
        unfolding eq s Inr by simp
      with assms have "save_fields rest ppk db1 = (r, db')" by simp
      with that(4)[OF BoundModelListField all] s Inr show ?thesis by simp
    qed
  qed
qed

lemma save_entries_Cons_cases
  [consumes 1, case_names key_error skip new_raise new_ok unhashable foreign parentage delete
     update_raise update_ok]:
  assumes "save_entries fk ppk (x # rest) ex db = (r, db')"
  obtains
    "form_data x (mc_pk (fk_model_class fk)) = None"
      "r = Inl (KeyError (mc_pk (fk_model_class fk)))" "db' = db"
  | "form_data x (mc_pk (fk_model_class fk)) = Some (DVal VNone)"
      "data_truthy (form_data x ''delete_'')"
      "save_entries fk ppk rest ex db = (r, db')"
  | subobj db1 e where
      "form_data x (mc_pk (fk_model_class fk)) = Some (DVal VNone)"
      "\<not> data_truthy (form_data x ''delete_'')"
      "save (populate_obj x (setattr (new_instance (fk_model_class fk)) (fk_name fk) ppk)) db
         = (subobj, db1)"
      "save_inlines x subobj db1 = (Inl e, db')" "r = Inl e"
  | subobj db1 db2 where
      "form_data x (mc_pk (fk_model_class fk)) = Some (DVal VNone)"
      "\<not> data_truthy (form_data x ''delete_'')"
      "save (populate_obj x (setattr (new_instance (fk_model_class fk)) (fk_name fk) ppk)) db
         = (subobj, db1)"
      "save_inlines x subobj db1 = (Inr (), db2)"
      "save_entries fk ppk rest ex db2 = (r, db')"
  | n where "form_data x (mc_pk (fk_model_class fk)) = Some (DList n)"
      "r = Inl (TypeError ''unhashable type'')" "db' = db"
  | pk where "form_data x (mc_pk (fk_model_class fk)) = Some (DVal pk)" "pk \<noteq> VNone"
      "ex pk = None"
      "r = Inl (ValueError ''Cannot save data to a foreign child (id {}).'' [pk])" "db' = db"
  | pk subobj0 d where "form_data x (mc_pk (fk_model_class fk)) = Some (DVal pk)" "pk \<noteq> VNone"
      "ex pk = Some subobj0" "form_data x (fk_name fk) = Some d" "d \<noteq> DVal ppk"
      "r = Inl (ValueError ''Cannot change parentage of a child'' [])" "db' = db"
  | pk subobj0 where "form_data x (mc_pk (fk_model_class fk)) = Some (DVal pk)" "pk \<noteq> VNone"
      "ex pk = Some subobj0"
      "form_data x (fk_name fk) = None \<or> form_data x (fk_name fk) = Some (DVal ppk)"
      "data_truthy (form_data x ''delete_'')"
      "save_entries fk ppk rest ex (delete_instance subobj0 db) = (r, db')"
  | pk subobj0 subobj db1 e where
      "form_data x (mc_pk (fk_model_class fk)) = Some (DVal pk)" "pk \<noteq> VNone"
      "ex pk = Some subobj0"
      "form_data x (fk_name fk) = None \<or> form_data x (fk_name fk) = Some (DVal ppk)"
      "\<not> data_truthy (form_data x ''delete_'')"
      "save (populate_obj x subobj0) db = (subobj, db1)"
      "save_inlines x subobj db1 = (Inl e, db')" "r = Inl e"
  | pk subobj0 subobj db1 db2 where
      "form_data x (mc_pk (fk_model_class fk)) = Some (DVal pk)" "pk \<noteq> VNone"
      "ex pk = Some subobj0"
      "form_data x (fk_name fk) = None \<or> form_data x (fk_name fk) = Some (DVal ppk)"
      "\<not> data_truthy (form_data x ''delete_'')"
      "save (populate_obj x subobj0) db = (subobj, db1)"
      "save_inlines x subobj db1 = (Inr (), db2)"
      "save_entries fk ppk rest (ex(pk \<mapsto> subobj)) db2 = (r, db')"
proof -
  let ?pkn = "mc_pk (fk_model_class fk)"
  let ?run = "save_entries fk ppk (x # rest) ex db"
  show ?thesis
  proof (cases "form_data x ?pkn")
    case None
    then have "?run = (Inl (KeyError ?pkn), db)" by (simp add: Let_def)
    with assms have "r = Inl (KeyError ?pkn)" "db' = db" by simp_all
    with that(1)[OF None] show ?thesis .
  next
    case (Some d)
    show ?thesis
    proof (cases d)
      case (DList n)
      with Some have pkl: "form_data x ?pkn = Some (DList n)" by simp
      then have "?run = (Inl (TypeError ''unhashable type''), db)" by (simp add: Let_def)
      with assms have "r = Inl (TypeError ''unhashable type'')" "db' = db" by simp_all
      with that(5)[OF pkl] show ?thesis .
    next
      case (DVal pk)
      with Some have pkv: "form_data x ?pkn = Some (DVal pk)" by simp
      show ?thesis
      proof (cases "pk = VNone")
        case True
        with pkv have pkn: "form_data x ?pkn = Some (DVal VNone)" by simp
        show ?thesis
        proof (cases "data_truthy (form_data x ''delete_'')")
          case True
          with pkn have "?run = save_entries fk ppk rest ex db" by (simp add: Let_def)
          with assms have "save_entries fk ppk rest ex db = (r, db')" by simp
          with that(2)[OF pkn True] show ?thesis .
        next
          case False
          let ?new = "populate_obj x (setattr (new_instance (fk_model_class fk)) (fk_name fk) ppk)"
          obtain subobj db1 where s: "save ?new db = (subobj, db1)"
            by (cases "save ?new db")
          have eq: "?run = (case save_inlines x subobj db1 of
                       (Inl e, db2) \<Rightarrow> (Inl e, db2)
                     | (Inr u, db2) \<Rightarrow> save_entries fk ppk rest ex db2)"
            using pkn False s by (simp add: Let_def)
          obtain r1 db2 where i: "save_inlines x subobj db1 = (r1, db2)"
            by (cases "save_inlines x subobj db1")
          show ?thesis
          proof (cases r1)
            case (Inl e)
            have "?run = (Inl e, db2)" unfolding eq i Inl by simp
            with assms have "r = Inl e" "db2 = db'" by simp_all
            with that(3)[OF pkn False s] i Inl show ?thesis by simp
          next
            case (Inr u)
            have "?run = save_entries fk ppk rest ex db2" unfolding eq i Inr by simp
            with assms have "save_entries fk ppk rest ex db2 = (r, db')" by simp
            with that(4)[OF pkn False s] i Inr show ?thesis by simp
          qed
        qed
      next
        case False
        note notnone = False
        show ?thesis
        proof (cases "ex pk")
          case None
          have "?run = (Inl (ValueError ''Cannot save data to a foreign child (id {}).'' [pk]), db)"
            using pkv notnone None by (simp add: Let_def)
          with assms have "r = Inl (ValueError ''Cannot save data to a foreign child (id {}).'' [pk])"
            "db' = db" by simp_all
          with that(6)[OF pkv notnone None] show ?thesis .
        next
          case (Some subobj0)
          note ex = Some
          show ?thesis
          proof (cases "case form_data x (fk_name fk) of None \<Rightarrow> False | Some d' \<Rightarrow> d' \<noteq> DVal ppk")
            case True
            then obtain d where d: "form_data x (fk_name fk) = Some d" "d \<noteq> DVal ppk"
              by (auto split: option.splits)
            have "?run = (Inl (ValueError ''Cannot change parentage of a child'' []), db)"
              using pkv notnone ex True by (simp add: Let_def)
            with assms have "r = Inl (ValueError ''Cannot change parentage of a child'' [])"
              "db' = db" by simp_all
            with that(7)[OF pkv notnone ex d] show ?thesis .
          next
            case nofk: False
            then have fkok: "form_data x (fk_name fk) = None \<or> form_data x (fk_name fk) = Some (DVal ppk)"
              by (auto split: option.splits)
            show ?thesis
            proof (cases "data_truthy (form_data x ''delete_'')")
              case True
              have "?run = save_entries fk ppk rest ex (delete_instance subobj0 db)"
                using pkv notnone ex nofk True by (simp add: Let_def)
              with assms have "save_entries fk ppk rest ex (delete_instance subobj0 db) = (r, db')"
                by simp
              with that(8)[OF pkv notnone ex fkok True] show ?thesis .
            next
              case nodel: False
              obtain subobj db1 where s: "save (populate_obj x subobj0) db = (subobj, db1)"
                by (cases "save (populate_obj x subobj0) db")
              have eq: "?run = (case save_inlines x subobj db1 of
                           (Inl e, db2) \<Rightarrow> (Inl e, db2)
                         | (Inr u, db2) \<Rightarrow> save_entries fk ppk rest (ex(pk \<mapsto> subobj)) db2)"
                using pkv notnone ex nofk nodel s by (simp add: Let_def)
              obtain r1 db2 where i: "save_inlines x subobj db1 = (r1, db2)"
                by (cases "save_inlines x subobj db1")
              show ?thesis
              proof (cases r1)
                case (Inl e)
                have "?run = (Inl e, db2)" unfolding eq i Inl by simp
                with assms have "r = Inl e" "db2 = db'" by simp_all
                with that(9)[OF pkv notnone ex fkok nodel s] i Inl show ?thesis by simp
              next
                case (Inr u)
                have "?run = save_entries fk ppk rest (ex(pk \<mapsto> subobj)) db2"
                  unfolding eq i Inr by simp
                with assms have "save_entries fk ppk rest (ex(pk \<mapsto> subobj)) db2 = (r, db')"
                  by simp
                with that(10)[OF pkv notnone ex fkok nodel s] i Inr show ?thesis by simp
              qed
            qed
          qed
        qed
      qed
    qed
  qed
qed

subsection \<open>What every run preserves\<close>

lemma save_fields_invariant:
  assumes refl: "\<And>db. I db db"
    and trans: "\<And>a b c. I a b \<Longrightarrow> I b c \<Longrightarrow> I a c"
    and entries: "\<And>nm fk es ppk ex db r db'. (nm, BoundModelListField fk es) \<in> set fs \<Longrightarrow>
                   save_entries fk ppk es ex db = (r, db') \<Longrightarrow> I db db'"
  shows "save_fields fs ppk db = (r, db') \<Longrightarrow> I db db'"
  using entries
proof (induction fs arbitrary: db)
  case Nil
  then show ?case by (simp add: refl)
next
  case (Cons a fs)
  obtain nm fld where a: "a = (nm, fld)" by (cases a)
  have ih: "save_fields fs ppk d = (r, db') \<Longrightarrow> I d db'" for d
    by (rule Cons.IH) (auto intro: Cons.prems(2))
  from Cons.prems(1)[unfolded a] show ?case
  proof (cases rule: save_fields_Cons_cases)
    case (plain v)
    then show ?thesis by (simp add: ih)
  next
    case (key_error fk es)
    then show ?thesis by (simp add: refl)
  next
    case (entries_raise fk es e)
    then show ?thesis using Cons.prems(2)[of nm fk es] a by simp
  next
    case (entries_ok fk es db1)
    then have "I db db1" using Cons.prems(2)[of nm fk es] a by simp
    with entries_ok ih show ?thesis by (blast intro: trans)
  qed
qed

lemma save_entries_invariant:
  assumes refl: "\<And>db. I db db"
    and trans: "\<And>a b c. I a b \<Longrightarrow> I b c \<Longrightarrow> I a c"
    and sv: "\<And>ob db ob' db'. save ob db = (ob', db') \<Longrightarrow> I db db'"
    and dl: "\<And>ob db. I db (delete_instance ob db)"
    and inl: "\<And>e ob db r db'. e \<in> set es \<Longrightarrow> save_inlines e ob db = (r, db') \<Longrightarrow> I db db'"
  shows "save_entries fk ppk es ex db = (r, db') \<Longrightarrow> I db db'"
  using inl
proof (induction es arbitrary: ex db)
  case Nil
  then show ?case by (simp add: refl)
next
  case (Cons x es)
  have ih: "save_entries fk ppk es ex' d = (r, db') \<Longrightarrow> I d db'" for ex' d
    by (rule Cons.IH) (auto intro: Cons.prems(2))
  have rec: "save_inlines x ob d = (r', d') \<Longrightarrow> I d d'" for ob d r' d'
    by (rule Cons.prems(2)) auto
  from Cons.prems(1) show ?case
  proof (cases rule: save_entries_Cons_cases)
    case key_error
    then show ?thesis by (simp add: refl)
  next
    case skip
    then show ?thesis by (simp add: ih)
  next
    case (new_raise subobj db1 e)
    then show ?thesis by (blast intro: trans sv rec)
  next
    case (new_ok subobj db1 db2)
    then show ?thesis by (blast intro: trans sv rec ih)
  next
    case (unhashable n)
    then show ?thesis by (simp add: refl)
  next
    case (foreign pk)
    then show ?thesis by (simp add: refl)
  next
    case (parentage pk subobj0 d)
    then show ?thesis by (simp add: refl)
  next
    case (delete pk subobj0)
    then show ?thesis by (blast intro: trans dl ih)
  next
    case (update_raise pk subobj0 subobj db1 e)
    then show ?thesis by (blast intro: trans sv rec)
  next
    case (update_ok pk subobj0 subobj db1 db2)
    then show ?thesis by (blast intro: trans sv rec ih)
  qed
qed

lemma save_invariant:
  assumes refl: "\<And>db. I db db"
    and trans: "\<And>a b c. I a b \<Longrightarrow> I b c \<Longrightarrow> I a c"
    and sv: "\<And>ob db ob' db'. save ob db = (ob', db') \<Longrightarrow> I db db'"
    and dl: "\<And>ob db. I db (delete_instance ob db)"
  shows "\<forall>ob db r db'. save_inlines f ob db = (r, db') \<longrightarrow> I db db'"
    and "\<forall>fk es. fld = BoundModelListField fk es \<longrightarrow>
           (\<forall>ppk ex db r db'. save_entries fk ppk es ex db = (r, db') \<longrightarrow> I db db')"
proof (induction f and fld)
  case (Form fs)
  have "I db db'" if "save_fields fs ppk db = (r, db')" for ppk db r db'
    using that
  proof (rule save_fields_invariant[of I, OF refl trans, rotated -1])
    fix nm fk es ppk ex db r db'
    assume "(nm, BoundModelListField fk es) \<in> set fs" "save_entries fk ppk es ex db = (r, db')"
    with Form[of "(nm, BoundModelListField fk es)" "BoundModelListField fk es"]
    show "I db db'" by auto
  qed
  then show ?case by auto
next
  case (BoundField v)
  then show ?case by simp
next
  case (BoundModelListField fk es)
  have "I db db'" if "save_entries fk ppk es ex db = (r, db')" for ppk ex db r db'
    using that
  proof (rule save_entries_invariant[of I, OF refl trans sv dl, rotated -1])
    fix e ob db r db'
    assume "e \<in> set es" "save_inlines e ob db = (r, db')"
    with BoundModelListField[of e] show "I db db'" by blast
  qed
  then show ?case by auto
qed

lemma extends_db_refl: "extends_db db db"
  by (simp add: extends_db_def)

lemma below_next_mono:
  "\<forall>m. next_id a m \<le> next_id b m \<Longrightarrow> below_next a k \<Longrightarrow> below_next b k"
  by (cases k) (auto simp: below_next_def split: val.splits intro: less_le_trans)

lemma extends_db_trans: "extends_db a b \<Longrightarrow> extends_db b c \<Longrightarrow> extends_db a c"
  unfolding extends_db_def
  by (meson below_next_mono order_trans)

lemma extends_db_delete: "extends_db db (delete_instance ob db)"
  by (auto simp: extends_db_def delete_instance_def fresh_def below_next_def
      split: val.splits prod.splits)

lemma extends_db_save:
  assumes "save ob db = (ob', db')"
  shows "extends_db db db'"
proof (cases "get_pk_value ob = VNone")
  case True
  let ?m = "mc_name (obj_class ob)"
  let ?k = "(?m, VInt (next_id db ?m))"
  from assms[unfolded save_insert[OF True]]
  have r: "rows db' = (rows db)(?k \<mapsto> (obj_data ob)(mc_pk (obj_class ob) \<mapsto> VInt (next_id db ?m)))"
    and n: "next_id db' = (next_id db)(?m := next_id db ?m + 1)"
    by auto
  have mono: "\<forall>m. next_id db m \<le> next_id db' m"
    by (simp add: n)
  have absent: "rows db' k = None" if "rows db k = None" "below_next db k" for k
    using that by (auto simp: r below_next_def)
  have "fresh db'" if f: "fresh db"
    unfolding fresh_def
  proof (intro allI impI)
    fix k assume k: "rows db' k \<noteq> None"
    show "below_next db' k"
    proof (cases "k = ?k")
      case True
      then show ?thesis by (simp add: below_next_def n)
    next
      case False
      with k have "rows db k \<noteq> None" by (simp add: r)
      with f have "below_next db k" unfolding fresh_def by blast
      with mono show ?thesis by (rule below_next_mono)
    qed
  qed
  with mono absent show ?thesis by (simp add: extends_db_def)
next
  case False
  from assms[unfolded save_update[OF False]]
  have n: "next_id db' = next_id db"
    and d: "rows db k = None \<longleftrightarrow> rows db' k = None" for k
    by (auto split: option.splits if_splits)
  have b: "below_next db' k = below_next db k" for k
    by (cases k) (simp add: below_next_def n)
  have "fresh db'" if "fresh db"
    using that unfolding fresh_def b d[symmetric] .
  then show ?thesis
    by (simp add: extends_db_def n d[symmetric])
qed

lemma save_inlines_extends: "save_inlines f ob db = (r, db') \<Longrightarrow> extends_db db db'"
proof -
  have "\<forall>ob db r db'. save_inlines f ob db = (r, db') \<longrightarrow> extends_db db db'"
  proof (rule save_invariant(1))
    show "extends_db db db" for db by (rule extends_db_refl)
    show "extends_db a c" if "extends_db a b" "extends_db b c" for a b c
      using that by (rule extends_db_trans)
    show "extends_db db db'" if "save ob db = (ob', db')" for ob db ob' db'
      using that by (rule extends_db_save)
    show "extends_db db (delete_instance ob db)" for ob db by (rule extends_db_delete)
  qed
  then show "save_inlines f ob db = (r, db') \<Longrightarrow> extends_db db db'" by blast
qed

lemma save_entries_extends: "save_entries fk ppk es ex db = (r, db') \<Longrightarrow> extends_db db db'"
proof (rule save_entries_invariant[of extends_db es])
  show "extends_db db db" for db by (rule extends_db_refl)
  show "extends_db a c" if "extends_db a b" "extends_db b c" for a b c
    using that by (rule extends_db_trans)
  show "extends_db db db'" if "save ob db = (ob', db')" for ob db ob' db'
    using that by (rule extends_db_save)
  show "extends_db db (delete_instance ob db)" for ob db by (rule extends_db_delete)
  show "extends_db db db'" if "save_inlines e ob db = (r, db')" for e ob db r db'
    using that by (rule save_inlines_extends)
qed

lemma save_fields_extends: "save_fields fs ppk db = (r, db') \<Longrightarrow> extends_db db db'"
proof (rule save_fields_invariant[of extends_db fs])
  show "extends_db db db" for db by (rule extends_db_refl)
  show "extends_db a c" if "extends_db a b" "extends_db b c" for a b c
    using that by (rule extends_db_trans)
  show "extends_db db db'" if "save_entries fk ppk es ex db = (r, db')" for fk ppk es ex db r db'
    using that by (rule save_entries_extends)
qed

lemmas save_example_simps =
  blog_db_def blog1_def entry_form_def entry_form_with_blog_def blog_form_def blog_key_def
  entry_class_def blog_class_def form_data_def existing_of_def get_pk_value_def populate_obj_def
  setattr_def save_def delete_instance_def new_instance_def py_bool_def Let_def

subsection \<open>The transaction\<close>

text \<open>
  C2: \<open>save_to\<close> populates the parent, saves it and saves the nested collections inside
  one \<open>atomic\<close> scope: its outcome and the instance are those of the three steps run in
  this order, the database is theirs when they return, and it is the database before
  the call when any of them raises.
\<close>

theorem save_to_atomic:
  assumes "save_to self ob db = (r, ob', db')"
  shows "\<exists>db1 db2. save (populate_obj self ob) db = (ob', db1) \<and>
           save_inlines self ob' db1 = (r, db2) \<and>
           db' = (case r of Inl e \<Rightarrow> db | Inr u \<Rightarrow> db2)"
proof -
  obtain ob1 db1 where s: "save (populate_obj self ob) db = (ob1, db1)"
    by (cases "save (populate_obj self ob) db")
  obtain r2 db2 where i: "save_inlines self ob1 db1 = (r2, db2)"
    by (cases "save_inlines self ob1 db1")
  have "save_to self ob db = (r2, ob1, case r2 of Inl e \<Rightarrow> db | Inr u \<Rightarrow> db2)"
    by (cases r2) (simp_all add: save_to_def save_to_body_def atomic_def s i)
  with assms s i show ?thesis by auto
qed

theorem save_to_atomic_witness:
  "\<exists>ob' db1. save_to (blog_form ''renamed'' [entry_form (VInt 6) ''hack'' False]) blog1 blog_db
      = (Inl (ValueError ''Cannot save data to a foreign child (id {}).'' [VInt 6]), ob', blog_db) \<and>
     save (populate_obj (blog_form ''renamed'' [entry_form (VInt 6) ''hack'' False]) blog1) blog_db
      = (ob', db1) \<and>
     rows db1 (''Blog'', VInt 1) \<noteq> rows blog_db (''Blog'', VInt 1)"
proof -
  let ?f = "blog_form ''renamed'' [entry_form (VInt 6) ''hack'' False]"
  obtain r ob' db' where run: "save_to ?f blog1 blog_db = (r, ob', db')"
    by (cases "save_to ?f blog1 blog_db")
  from save_to_atomic[OF run] obtain db1 db2 where
    s: "save (populate_obj ?f blog1) blog_db = (ob', db1)" and
    i: "save_inlines ?f ob' db1 = (r, db2)" and
    d: "db' = (case r of Inl e \<Rightarrow> blog_db | Inr u \<Rightarrow> db2)"
    by blast
  have s': "save (populate_obj ?f blog1) blog_db =
      (blog1\<lparr> obj_data := [''id'' \<mapsto> VInt 1, ''title'' \<mapsto> VStr ''renamed''] \<rparr>,
       blog_db\<lparr> rows := (rows blog_db)((''Blog'', VInt 1) \<mapsto>
                  [''id'' \<mapsto> VInt 1, ''title'' \<mapsto> VStr ''renamed'']) \<rparr>)"
    by (simp add: save_example_simps fun_eq_iff map_add_def)
  from s s' have ob': "ob' = blog1\<lparr> obj_data := [''id'' \<mapsto> VInt 1, ''title'' \<mapsto> VStr ''renamed''] \<rparr>"
    and db1: "db1 = blog_db\<lparr> rows := (rows blog_db)((''Blog'', VInt 1) \<mapsto>
                  [''id'' \<mapsto> VInt 1, ''title'' \<mapsto> VStr ''renamed'']) \<rparr>"
    by simp_all
  have "fst (save_inlines ?f ob' db1)
          = Inl (ValueError ''Cannot save data to a foreign child (id {}).'' [VInt 6])"
    unfolding ob' db1 by (simp add: save_example_simps)
  with i have r: "r = Inl (ValueError ''Cannot save data to a foreign child (id {}).'' [VInt 6])"
    by simp
  have "rows db1 (''Blog'', VInt 1) \<noteq> rows blog_db (''Blog'', VInt 1)"
    unfolding db1 by (simp add: blog_db_def fun_eq_iff)
  with run s d r show ?thesis by auto
qed

subsection \<open>New child entries\<close>

text \<open>
  The step for a new entry: an entry whose primary key is \<open>None\<close> and whose delete flag is
  not set makes \<open>save_entries\<close> create one instance of the child model, set its foreign
  key to the parent's primary key, populate it and save it once: the save inserts exactly
  one row, under the next automatic key (a key not in use in a fresh database), and that
  row holds the parent's primary key as its foreign key when the subform has no field of
  that name. Afterwards only the entry's nested collections and the remaining entries are
  processed.
\<close>

theorem new_entry_creates_one_record:
  assumes "form_data subform (mc_pk (fk_model_class fk)) = Some (DVal VNone)"
    and "\<not> data_truthy (form_data subform ''delete_'')"
  shows "\<exists>subobj db1.
     save (populate_obj subform (setattr (new_instance (fk_model_class fk)) (fk_name fk) parent_pk)) db
       = (subobj, db1) \<and>
     obj_class subobj = fk_model_class fk \<and>
     get_pk_value subobj = VInt (next_id db (mc_name (fk_model_class fk))) \<and>
     rows db1 = (rows db)((mc_name (fk_model_class fk), get_pk_value subobj) \<mapsto> obj_data subobj) \<and>
     next_id db1 = (next_id db)(mc_name (fk_model_class fk) :=
                                 next_id db (mc_name (fk_model_class fk)) + 1) \<and>
     (fresh db \<longrightarrow> rows db (mc_name (fk_model_class fk), get_pk_value subobj) = None) \<and>
     (form_data subform (fk_name fk) = None \<and> fk_name fk \<in> set (mc_fields (fk_model_class fk)) \<and>
      fk_name fk \<noteq> mc_pk (fk_model_class fk) \<longrightarrow> obj_data subobj (fk_name fk) = Some parent_pk) \<and>
     save_entries fk parent_pk (subform # rest) existing db =
       (case save_inlines subform subobj db1 of
          (Inl e, db2) \<Rightarrow> (Inl e, db2)
        | (Inr u, db2) \<Rightarrow> save_entries fk parent_pk rest existing db2)"
proof -
  let ?sub = "fk_model_class fk"
  let ?new = "populate_obj subform (setattr (new_instance ?sub) (fk_name fk) parent_pk)"
  let ?n = "next_id db (mc_name ?sub)"
  have cls: "obj_class ?new = ?sub" by simp
  have pk: "get_pk_value ?new = VNone"
    by (rule populate_obj_pk) (simp add: assms(1))
  let ?subobj = "?new\<lparr> obj_data := (obj_data ?new)(mc_pk ?sub \<mapsto> VInt ?n) \<rparr>"
  let ?db1 = "db\<lparr> rows := (rows db)((mc_name ?sub, VInt ?n) \<mapsto> (obj_data ?new)(mc_pk ?sub \<mapsto> VInt ?n)),
                   next_id := (next_id db)(mc_name ?sub := ?n + 1) \<rparr>"
  have s: "save ?new db = (?subobj, ?db1)"
    using save_insert[OF pk, of db] by (simp add: cls)
  have gp: "get_pk_value ?subobj = VInt ?n"
    by (simp add: get_pk_value_def)
  have fr: "rows db (mc_name ?sub, VInt ?n) = None" if "fresh db"
  proof (rule ccontr)
    assume "rows db (mc_name ?sub, VInt ?n) \<noteq> None"
    with that have "below_next db (mc_name ?sub, VInt ?n)" unfolding fresh_def by blast
    then show False by (simp add: below_next_def)
  qed
  have fkv: "obj_data ?subobj (fk_name fk) = Some parent_pk"
    if "form_data subform (fk_name fk) = None" "fk_name fk \<in> set (mc_fields ?sub)"
      "fk_name fk \<noteq> mc_pk ?sub"
    using that populate_obj_data_absent[OF that(1), of "setattr (new_instance ?sub) (fk_name fk) parent_pk"]
    by (simp add: setattr_def)
  have run: "save_entries fk parent_pk (subform # rest) existing db =
       (case save_inlines subform ?subobj ?db1 of
          (Inl e, db2) \<Rightarrow> (Inl e, db2)
        | (Inr u, db2) \<Rightarrow> save_entries fk parent_pk rest existing db2)"
    using assms s by (simp add: Let_def)
  show ?thesis
  proof (intro exI[of _ ?subobj] exI[of _ ?db1] conjI impI)
    show "save ?new db = (?subobj, ?db1)" by (rule s)
    show "obj_class ?subobj = ?sub" by (simp add: cls)
    show "get_pk_value ?subobj = VInt ?n" by (rule gp)
    show "rows ?db1 = (rows db)((mc_name ?sub, get_pk_value ?subobj) \<mapsto> obj_data ?subobj)"
      by (simp add: gp)
    show "next_id ?db1 = (next_id db)(mc_name ?sub := ?n + 1)" by simp
    show "rows db (mc_name ?sub, get_pk_value ?subobj) = None" if "fresh db"
      using fr[OF that] by (simp add: gp)
    show "obj_data ?subobj (fk_name fk) = Some parent_pk"
      if "form_data subform (fk_name fk) = None \<and> fk_name fk \<in> set (mc_fields ?sub) \<and>
          fk_name fk \<noteq> mc_pk ?sub"
      using that fkv by blast
    show "save_entries fk parent_pk (subform # rest) existing db =
       (case save_inlines subform ?subobj ?db1 of
          (Inl e, db2) \<Rightarrow> (Inl e, db2)
        | (Inr u, db2) \<Rightarrow> save_entries fk parent_pk rest existing db2)"
      by (rule run)
  qed
qed

theorem new_entry_creates_one_record_witness:
  "\<exists>subobj db1.
     save (populate_obj (entry_form VNone ''hello'' False)
             (setattr (new_instance entry_class) ''blog'' (VInt 1))) blog_db = (subobj, db1) \<and>
     get_pk_value subobj = VInt 10 \<and>
     obj_data subobj ''blog'' = Some (VInt 1) \<and>
     rows blog_db (''Entry'', VInt 10) = None \<and>
     rows db1 = (rows blog_db)((''Entry'', VInt 10) \<mapsto> obj_data subobj)"
proof -
  have h: "form_data (entry_form VNone ''hello'' False) (mc_pk (fk_model_class blog_key))
             = Some (DVal VNone)"
    "\<not> data_truthy (form_data (entry_form VNone ''hello'' False) ''delete_'')"
    by (simp_all add: save_example_simps)
  have f: "fresh blog_db"
    by (auto simp: fresh_def below_next_def blog_db_def split: val.splits if_splits)
  have g: "form_data (entry_form VNone ''hello'' False) (fk_name blog_key) = None"
    "fk_name blog_key \<in> set (mc_fields (fk_model_class blog_key))"
    "fk_name blog_key \<noteq> mc_pk (fk_model_class blog_key)"
    "fk_model_class blog_key = entry_class" "fk_name blog_key = ''blog''"
    "mc_name entry_class = ''Entry''" "next_id blog_db ''Entry'' = 10"
    by (simp_all add: save_example_simps)
  from new_entry_creates_one_record[OF h, of "VInt 1" blog_db "[]" Map.empty]
  obtain subobj db1 where
    1: "save (populate_obj (entry_form VNone ''hello'' False)
               (setattr (new_instance (fk_model_class blog_key)) (fk_name blog_key) (VInt 1)))
          blog_db = (subobj, db1)"
    and 2: "get_pk_value subobj = VInt (next_id blog_db (mc_name (fk_model_class blog_key)))"
    and 3: "rows db1 = (rows blog_db)((mc_name (fk_model_class blog_key), get_pk_value subobj)
                          \<mapsto> obj_data subobj)"
    and 4: "fresh blog_db \<longrightarrow>
              rows blog_db (mc_name (fk_model_class blog_key), get_pk_value subobj) = None"
    and 5: "form_data (entry_form VNone ''hello'' False) (fk_name blog_key) = None \<and>
            fk_name blog_key \<in> set (mc_fields (fk_model_class blog_key)) \<and>
            fk_name blog_key \<noteq> mc_pk (fk_model_class blog_key) \<longrightarrow>
            obj_data subobj (fk_name blog_key) = Some (VInt 1)"
    by blast
  from 1 2 3 4 5 f g show ?thesis by simp
qed

text \<open>
  C3, where the code breaks it: the new record is linked to the parent before the subform
  populates it (``Link to parent'', line 89; \<open>populate_obj\<close>, line 109), so a subform field
  named like the foreign key overwrites the link. For blog 1 and a new entry whose subform
  carries the key of blog 2, \<open>save_to\<close> returns and has created one record, entry 10, but
  that record is not linked to the parent: it is no member of the related set of blog 1,
  it belongs to blog 2.
\<close>

theorem new_entry_stored_under_other_parent:
  "form_data (entry_form_with_blog VNone (VInt 2) ''note'' False) (mc_pk (fk_model_class blog_key))
     = Some (DVal VNone) \<and>
   \<not> data_truthy (form_data (entry_form_with_blog VNone (VInt 2) ''note'' False) ''delete_'') \<and>
   rows blog_db (''Entry'', VInt 10) = None \<and>
   (case save_to (blog_form ''first'' [entry_form_with_blog VNone (VInt 2) ''note'' False])
           blog1 blog_db of
      (r, ob', db') \<Rightarrow>
        r = Inr () \<and> get_pk_value ob' = VInt 1 \<and>
        rows db' (''Entry'', VInt 10)
          = Some [''blog'' \<mapsto> VInt 2, ''text'' \<mapsto> VStr ''note'', ''id'' \<mapsto> VInt 10] \<and>
        existing_of db' blog_key (VInt 1) (VInt 10) = None \<and>
        existing_of db' blog_key (VInt 2) (VInt 10) \<noteq> None)"
  by (simp add: save_example_simps save_to_def save_to_body_def atomic_def)
subsection \<open>Ownership of submitted child entries\<close>

lemma save_fields_append:
  "save_fields (pre @ post) ppk db =
    (case save_fields pre ppk db of
       (Inl e, db') \<Rightarrow> (Inl e, db')
     | (Inr u, db') \<Rightarrow> save_fields post ppk db')"
proof (induction pre arbitrary: db)
  case Nil
  then show ?case by simp
next
  case (Cons a pre)
  obtain nm fld where a: "a = (nm, fld)" by (cases a)
  show ?case
  proof (cases fld)
    case (BoundField v)
    with a Cons show ?thesis by simp
  next
    case (BoundModelListField fk es)
    show ?thesis
    proof (cases "\<exists>e \<in> set es. form_data e (mc_pk (fk_model_class fk)) = None")
      case True
      then show ?thesis unfolding a BoundModelListField by (simp add: Let_def)
    next
      case False
      obtain r1 db1 where s: "save_entries fk ppk es (existing_of db fk ppk) db = (r1, db1)"
        by (cases "save_entries fk ppk es (existing_of db fk ppk) db")
      have c: "(\<exists>e \<in> set es. form_data e (mc_pk (fk_model_class fk)) = None) = False"
        using False by simp
      show ?thesis
        unfolding a BoundModelListField append_Cons
        by (cases r1) (simp_all only: save_fields.simps Let_def c if_False s prod.case sum.case Cons)
    qed
  qed
qed

lemma foreign_entry_raises:
  assumes "e \<in> set es"
    and "form_data e (mc_pk (fk_model_class fk)) = Some (DVal pk)" and "pk \<noteq> VNone"
    and "ex pk = None \<or> (\<exists>d. form_data e (fk_name fk) = Some d \<and> d \<noteq> DVal ppk)"
  shows "\<exists>err db'. save_entries fk ppk es ex db = (Inl err, db')"
  using assms(1,4)
proof (induction es arbitrary: ex db)
  case Nil
  then show ?case by simp
next
  case (Cons x es)
  obtain r db' where run: "save_entries fk ppk (x # es) ex db = (r, db')"
    by (cases "save_entries fk ppk (x # es) ex db")
  show ?case
  proof (cases r)
    case (Inl err)
    with run show ?thesis by blast
  next
    case (Inr u)
    have rest: "\<exists>err d'. save_entries fk ppk es ex' d = (Inl err, d')"
      if "x \<noteq> e" "ex' pk = None \<or> (\<exists>d. form_data e (fk_name fk) = Some d \<and> d \<noteq> DVal ppk)"
      for ex' d
      using Cons.IH[of ex' d] Cons.prems(1) that by auto
    from run have False
    proof (cases rule: save_entries_Cons_cases)
      case skip
      with assms(2,3) have "x \<noteq> e" by auto
      from rest[where ex' = ex and d = db, OF this Cons.prems(2)] skip(3) Inr show False by auto
    next
      case (new_ok subobj db1 db2)
      with assms(2,3) have "x \<noteq> e" by auto
      from rest[where ex' = ex and d = db2, OF this Cons.prems(2)] new_ok(5) Inr show False by auto
    next
      case (delete pk' subobj0)
      with assms(2) Cons.prems(2) have "x \<noteq> e" by auto
      from rest[where ex' = ex and d = "delete_instance subobj0 db", OF this Cons.prems(2)] delete(6) Inr
      show False by auto
    next
      case (update_ok pk' subobj0 subobj db1 db2)
      with assms(2) Cons.prems(2) have ne: "x \<noteq> e" by auto
      have "(ex(pk' \<mapsto> subobj)) pk = None \<or>
            (\<exists>d. form_data e (fk_name fk) = Some d \<and> d \<noteq> DVal ppk)"
        using Cons.prems(2) update_ok(3) by auto
      from rest[where ex' = "ex(pk' \<mapsto> subobj)" and d = db2, OF ne this] update_ok(8) Inr show False by auto
    qed (use Inr in simp_all)
    then show ?thesis ..
  qed
qed

text \<open>
  C1, where the code breaks it: the check of the foreign key stands only in the branch
  for entries with an identifier (lines 90--100). For a new entry the code sets the
  foreign key to the parent's key (``Link to parent'', line 89), but \<open>populate_obj\<close> (line
  109) then overwrites it when the subform has a field of that name. A new entry that
  carries the key of another parent is therefore not rejected: \<open>save_inlines\<close> returns,
  and the row it inserts belongs to blog 2 although the parent is blog 1.
\<close>

theorem new_entry_foreign_key_not_checked:
  "get_pk_value blog1 = VInt 1 \<and>
   form_data (entry_form_with_blog VNone (VInt 2) ''spam'' False) (fk_name blog_key)
     = Some (DVal (VInt 2)) \<and>
   fst (save_inlines (blog_form ''first'' [entry_form_with_blog VNone (VInt 2) ''spam'' False])
          blog1 blog_db) = Inr () \<and>
   rows (snd (save_inlines (blog_form ''first'' [entry_form_with_blog VNone (VInt 2) ''spam'' False])
          blog1 blog_db)) (''Entry'', VInt 10)
     = Some [''blog'' \<mapsto> VInt 2, ''text'' \<mapsto> VStr ''spam'', ''id'' \<mapsto> VInt 10]"
  by (simp add: save_example_simps)

text \<open>
  What the two checks of lines 91--100 do reject: if an entry of a collection of the form
  carries an identifier (not \<open>None\<close>) that is not the primary key of a record of the
  parent's related set, as that set stands when the collection is processed, or carries
  an identifier together with a foreign-key value different from the parent's primary
  key, then \<open>save_inlines\<close> raises; and the step that examines the entry raises a
  \<open>ValueError\<close> and returns the database unchanged, so the entry's data is applied to no
  record.
\<close>

theorem foreign_child_rejected:
  assumes "fields_of f = pre @ (nm, BoundModelListField fk entries) # post"
    and "e \<in> set entries"
    and "form_data e (mc_pk (fk_model_class fk)) = Some (DVal pk)" and "pk \<noteq> VNone"
    and "\<forall>db1. save_fields pre (get_pk_value parent_obj) db = (Inr (), db1) \<longrightarrow>
           existing_of db1 fk (get_pk_value parent_obj) pk = None \<or>
           (\<exists>d. form_data e (fk_name fk) = Some d \<and> d \<noteq> DVal (get_pk_value parent_obj))"
  shows "(\<exists>err db'. save_inlines f parent_obj db = (Inl err, db')) \<and>
         (\<forall>rest existing db0.
            existing pk = None \<or>
            (\<exists>d. form_data e (fk_name fk) = Some d \<and> d \<noteq> DVal (get_pk_value parent_obj)) \<longrightarrow>
            save_entries fk (get_pk_value parent_obj) (e # rest) existing db0 =
              (Inl (if existing pk = None
                    then ValueError ''Cannot save data to a foreign child (id {}).'' [pk]
                    else ValueError ''Cannot change parentage of a child'' []), db0))"
proof
  let ?ppk = "get_pk_value parent_obj"
  obtain fs where f: "f = Form fs" by (cases f)
  with assms(1) have fs: "fs = pre @ (nm, BoundModelListField fk entries) # post" by simp
  obtain r1 db1 where p: "save_fields pre ?ppk db = (r1, db1)"
    by (cases "save_fields pre ?ppk db")
  show "\<exists>err db'. save_inlines f parent_obj db = (Inl err, db')"
  proof (cases r1)
    case (Inl err)
    with p show ?thesis by (simp add: f fs save_fields_append)
  next
    case (Inr u)
    with p assms(5) have bad: "existing_of db1 fk ?ppk pk = None \<or>
           (\<exists>d. form_data e (fk_name fk) = Some d \<and> d \<noteq> DVal ?ppk)" by simp
    from foreign_entry_raises[where ex = "existing_of db1 fk ?ppk" and db = db1, OF assms(2,3,4) bad]
    obtain err db' where "save_entries fk ?ppk entries (existing_of db1 fk ?ppk) db1 = (Inl err, db')"
      by blast
    then have "\<exists>err db'. save_fields ((nm, BoundModelListField fk entries) # post) ?ppk db1
                 = (Inl err, db')"
      by (simp add: Let_def)
    with p Inr show ?thesis by (simp add: f fs save_fields_append)
  qed
next
  show "\<forall>rest existing db0.
            existing pk = None \<or>
            (\<exists>d. form_data e (fk_name fk) = Some d \<and> d \<noteq> DVal (get_pk_value parent_obj)) \<longrightarrow>
            save_entries fk (get_pk_value parent_obj) (e # rest) existing db0 =
              (Inl (if existing pk = None
                    then ValueError ''Cannot save data to a foreign child (id {}).'' [pk]
                    else ValueError ''Cannot change parentage of a child'' []), db0)"
    using assms(3,4) by (auto simp: Let_def split: option.splits)
qed

theorem foreign_child_rejected_witness:
  "(\<exists>err db'. save_inlines (blog_form ''first'' [entry_form (VInt 5) ''mine'' False,
                                                  entry_form (VInt 6) ''hack'' False])
                 blog1 blog_db = (Inl err, db')) \<and>
   existing_of blog_db blog_key (VInt 1) (VInt 6) = None \<and>
   rows blog_db (''Entry'', VInt 6)
     = Some [''id'' \<mapsto> VInt 6, ''blog'' \<mapsto> VInt 2, ''text'' \<mapsto> VStr ''theirs'']"
proof -
  let ?es = "[entry_form (VInt 5) ''mine'' False, entry_form (VInt 6) ''hack'' False]"
  have 1: "fields_of (blog_form ''first'' ?es) =
            [(''title'', BoundField (VStr ''first''))] @ (''entries'', BoundModelListField blog_key ?es) # []"
    by (simp add: blog_form_def)
  have 2: "entry_form (VInt 6) ''hack'' False \<in> set ?es" by simp
  have 3: "form_data (entry_form (VInt 6) ''hack'' False) (mc_pk (fk_model_class blog_key))
            = Some (DVal (VInt 6))"
    by (simp add: save_example_simps)
  have 4: "VInt 6 \<noteq> VNone" by simp
  have ex: "existing_of blog_db blog_key (VInt 1) (VInt 6) = None"
    by (simp add: save_example_simps)
  have g: "get_pk_value blog1 = VInt 1" by (simp add: save_example_simps)
  have 5: "\<forall>db1. save_fields [(''title'', BoundField (VStr ''first''))] (get_pk_value blog1) blog_db
                  = (Inr (), db1) \<longrightarrow>
           existing_of db1 blog_key (get_pk_value blog1) (VInt 6) = None \<or>
           (\<exists>d. form_data (entry_form (VInt 6) ''hack'' False) (fk_name blog_key) = Some d \<and>
                d \<noteq> DVal (get_pk_value blog1))"
    using ex g by simp
  from foreign_child_rejected[OF 1 2 3 4 5]
  have "\<exists>err db'. save_inlines (blog_form ''first'' ?es) blog1 blog_db = (Inl err, db')"
    by blast
  moreover have "rows blog_db (''Entry'', VInt 6)
     = Some [''id'' \<mapsto> VInt 6, ''blog'' \<mapsto> VInt 2, ''text'' \<mapsto> VStr ''theirs'']"
    by (simp add: blog_db_def)
  ultimately show ?thesis using ex by blast
qed

subsection \<open>Child entries flagged for deletion\<close>

lemma existing_ok_existing_of:
  assumes "fresh db"
  shows "existing_ok fk db (existing_of db fk ppk)"
  unfolding existing_ok_def
proof (intro allI impI)
  fix v ob
  assume a: "existing_of db fk ppk v = Some ob"
  then obtain r where r: "rows db (mc_name (fk_model_class fk), v) = Some r"
    and ob: "ob = \<lparr> obj_class = fk_model_class fk, obj_data = r(mc_pk (fk_model_class fk) \<mapsto> v) \<rparr>"
    by (auto simp: existing_of_def split: if_splits option.splits)
  from r assms have "below_next db (mc_name (fk_model_class fk), v)"
    unfolding fresh_def by blast
  with ob show "obj_class ob = fk_model_class fk \<and> get_pk_value ob = v \<and>
                below_next db (mc_name (fk_model_class fk), v)"
    by (simp add: get_pk_value_def)
qed

lemma existing_ok_mono:
  assumes "existing_ok fk db ex" "extends_db db db'"
  shows "existing_ok fk db' ex"
  using assms unfolding existing_ok_def extends_db_def
  by (meson below_next_mono)

lemma existing_ok_update:
  assumes "existing_ok fk db ex" "ex pk = Some subobj0"
    and "form_data x (mc_pk (fk_model_class fk)) = Some (DVal pk)" "pk \<noteq> VNone"
    and "save (populate_obj x subobj0) db = (subobj, db1)"
  shows "existing_ok fk db (ex(pk \<mapsto> subobj))"
proof -
  from assms(1,2) have c: "obj_class subobj0 = fk_model_class fk"
    and b: "below_next db (mc_name (fk_model_class fk), pk)"
    by (auto simp: existing_ok_def)
  have p: "get_pk_value (populate_obj x subobj0) = pk"
    by (rule populate_obj_pk) (simp add: c assms(3))
  with assms(4,5) have "subobj = populate_obj x subobj0"
    using save_keeps_set_pk by blast
  with p c have "obj_class subobj = fk_model_class fk" "get_pk_value subobj = pk" by simp_all
  with assms(1) b show ?thesis by (auto simp: existing_ok_def)
qed

lemma deleted_entry_absent:
  assumes "e \<in> set es"
    and "form_data e (mc_pk (fk_model_class fk)) = Some (DVal pk)" and "pk \<noteq> VNone"
    and "data_truthy (form_data e ''delete_'')"
    and "existing_ok fk db ex"
    and "save_entries fk ppk es ex db = (Inr (), db')"
  shows "rows db' (mc_name (fk_model_class fk), pk) = None \<and>
         below_next db' (mc_name (fk_model_class fk), pk)"
  using assms(1,5,6)
proof (induction es arbitrary: ex db)
  case Nil
  then show ?case by simp
next
  case (Cons x es)
  let ?k = "(mc_name (fk_model_class fk), pk)"
  from Cons.prems(3) show ?case
  proof (cases rule: save_entries_Cons_cases)
    case skip
    with assms(2,3) Cons.prems(1) have "e \<in> set es" by auto
    from Cons.IH[OF this Cons.prems(2) skip(3)] show ?thesis .
  next
    case (new_ok subobj db1 db2)
    with assms(2,3) Cons.prems(1) have e: "e \<in> set es" by auto
    from new_ok(3,4) have "extends_db db db2"
      by (blast intro: extends_db_trans extends_db_save save_inlines_extends)
    from Cons.IH[OF e existing_ok_mono[OF Cons.prems(2) this] new_ok(5)] show ?thesis .
  next
    case (delete pk' subobj0)
    show ?thesis
    proof (cases "x = e")
      case True
      with delete(1) assms(2) have pk': "pk' = pk" by simp
      from Cons.prems(2) delete(3) pk'
      have o: "obj_class subobj0 = fk_model_class fk" "get_pk_value subobj0 = pk"
        and b: "below_next db ?k"
        by (auto simp: existing_ok_def)
      have "rows (delete_instance subobj0 db) ?k = None"
        by (simp add: delete_instance_def o)
      moreover have "below_next (delete_instance subobj0 db) ?k"
        using b by (simp add: below_next_def delete_instance_def split: val.splits)
      moreover from delete(6) have "extends_db (delete_instance subobj0 db) db'"
        by (rule save_entries_extends)
      ultimately show ?thesis
        unfolding extends_db_def by (meson below_next_mono)
    next
      case False
      with Cons.prems(1) have e: "e \<in> set es" by simp
      from Cons.IH[OF e existing_ok_mono[OF Cons.prems(2) extends_db_delete] delete(6)]
      show ?thesis .
    qed
  next
    case (update_ok pk' subobj0 subobj db1 db2)
    with assms(4) Cons.prems(1) have e: "e \<in> set es" by auto
    have ok: "existing_ok fk db (ex(pk' \<mapsto> subobj))"
      by (rule existing_ok_update[OF Cons.prems(2) update_ok(3) update_ok(1,2) update_ok(6)])
    from update_ok(6,7) have "extends_db db db2"
      by (blast intro: extends_db_trans extends_db_save save_inlines_extends)
    from Cons.IH[OF e existing_ok_mono[OF ok this] update_ok(8)] show ?thesis .
  qed simp_all
qed

lemma deleted_entry_absent_fields:
  assumes "(nm, BoundModelListField fk es) \<in> set fs" and "e \<in> set es"
    and "form_data e (mc_pk (fk_model_class fk)) = Some (DVal pk)" and "pk \<noteq> VNone"
    and "data_truthy (form_data e ''delete_'')"
    and "fresh db"
    and "save_fields fs ppk db = (Inr (), db')"
  shows "rows db' (mc_name (fk_model_class fk), pk) = None"
proof -
  from assms(1) obtain pre post where fs: "fs = pre @ (nm, BoundModelListField fk es) # post"
    by (auto dest: split_list)
  obtain r1 db1 where p: "save_fields pre ppk db = (r1, db1)"
    by (cases "save_fields pre ppk db")
  with assms(7) have r1: "r1 = Inr ()"
    and rest: "save_fields ((nm, BoundModelListField fk es) # post) ppk db1 = (Inr (), db')"
    unfolding fs save_fields_append by (cases r1; simp)+
  from p assms(6) have f1: "fresh db1"
    using save_fields_extends[OF p] by (simp add: extends_db_def)
  from rest show ?thesis
  proof (cases rule: save_fields_Cons_cases)
    case (entries_ok fk' es' db2)
    then have s: "save_entries fk ppk es (existing_of db1 fk ppk) db1 = (Inr (), db2)"
      and q: "save_fields post ppk db2 = (Inr (), db')" by simp_all
    from deleted_entry_absent[OF assms(2,3,4,5) existing_ok_existing_of[OF f1] s]
    have "rows db2 (mc_name (fk_model_class fk), pk) = None"
      "below_next db2 (mc_name (fk_model_class fk), pk)" by simp_all
    with save_fields_extends[OF q] show ?thesis by (simp add: extends_db_def)
  qed simp_all
qed

text \<open>
  C4, as the code contradicts it: an entry whose identifier belongs to the parent's
  related set and whose delete flag is set, but whose subform carries the key of another
  parent, is not deleted; the parentage check (lines 95--100) raises first.
\<close>

theorem flagged_entry_with_other_parent_kept:
  "form_data (entry_form_with_blog (VInt 5) (VInt 2) ''mine'' True) ''id'' = Some (DVal (VInt 5)) \<and>
   existing_of blog_db blog_key (get_pk_value blog1) (VInt 5) \<noteq> None \<and>
   data_truthy (form_data (entry_form_with_blog (VInt 5) (VInt 2) ''mine'' True) ''delete_'') \<and>
   save_inlines (blog_form ''first'' [entry_form_with_blog (VInt 5) (VInt 2) ''mine'' True])
       blog1 blog_db
     = (Inl (ValueError ''Cannot change parentage of a child'' []), blog_db) \<and>
   rows blog_db (''Entry'', VInt 5) \<noteq> None"
  by (simp add: save_example_simps)

text \<open>
  C4, amended: for an entry whose identifier is set and belongs to \<open>existing\<close>, whose
  delete flag is set and which carries no foreign-key value different from the parent's
  primary key, the step of \<open>save_inlines\<close> deletes that record and does nothing else: it
  neither populates nor saves the instance nor recurses into the entry's nested
  collections, but goes on to the remaining entries. When \<open>save_to\<close> then returns, on a
  fresh database, the record does not exist.
\<close>

theorem flagged_child_deleted:
  assumes "e \<in> set entries"
    and "form_data e (mc_pk (fk_model_class fk)) = Some (DVal pk)" and "pk \<noteq> VNone"
    and "data_truthy (form_data e ''delete_'')"
    and "form_data e (fk_name fk) = None \<or> form_data e (fk_name fk) = Some (DVal ppk)"
  shows "(\<forall>existing subobj0 rest db0. existing pk = Some subobj0 \<longrightarrow>
            save_entries fk ppk (e # rest) existing db0
              = save_entries fk ppk rest existing (delete_instance subobj0 db0)) \<and>
         (\<forall>db0 subobj0. existing_of db0 fk ppk pk = Some subobj0 \<longrightarrow>
            rows (delete_instance subobj0 db0)
              = (rows db0)((mc_name (fk_model_class fk), pk) := None) \<and>
            next_id (delete_instance subobj0 db0) = next_id db0) \<and>
         (\<forall>self nm ob db ob' db'.
            fresh db \<and> (nm, BoundModelListField fk entries) \<in> set (fields_of self) \<and>
            save_to self ob db = (Inr (), ob', db') \<longrightarrow>
            rows db' (mc_name (fk_model_class fk), pk) = None)"
proof (intro conjI allI impI)
  fix existing :: "val \<Rightarrow> obj option" and subobj0 rest db0
  assume "existing pk = Some subobj0"
  with assms(2,3,4,5)
  show "save_entries fk ppk (e # rest) existing db0
          = save_entries fk ppk rest existing (delete_instance subobj0 db0)"
    by (auto simp: Let_def)
next
  fix db0 subobj0
  assume "existing_of db0 fk ppk pk = Some subobj0"
  then have "obj_class subobj0 = fk_model_class fk" "get_pk_value subobj0 = pk"
    by (auto simp: existing_of_def get_pk_value_def split: if_splits option.splits)
  then show "rows (delete_instance subobj0 db0)
              = (rows db0)((mc_name (fk_model_class fk), pk) := None)"
    "next_id (delete_instance subobj0 db0) = next_id db0"
    by (simp_all add: delete_instance_def)
next
  fix self nm ob db ob' db'
  assume a: "fresh db \<and> (nm, BoundModelListField fk entries) \<in> set (fields_of self) \<and>
             save_to self ob db = (Inr (), ob', db')"
  then have run: "save_to self ob db = (Inr (), ob', db')" by simp
  from run obtain db1 where
    s: "save (populate_obj self ob) db = (ob', db1)" and
    i: "save_inlines self ob' db1 = (Inr (), db')"
    by (rule save_to_returns)
  from a extends_db_save[OF s] have f1: "fresh db1" by (simp add: extends_db_def)
  obtain fs where self: "self = Form fs" by (cases self)
  with a have m: "(nm, BoundModelListField fk entries) \<in> set fs" by simp
  from i have "save_fields fs (get_pk_value ob') db1 = (Inr (), db')" by (simp add: self)
  from deleted_entry_absent_fields[OF m assms(1,2,3,4) f1 this]
  show "rows db' (mc_name (fk_model_class fk), pk) = None" by simp
qed

theorem flagged_child_deleted_witness:
  "\<exists>ob' db'. save_to (blog_form ''first'' [entry_form (VInt 5) ''mine'' True]) blog1 blog_db
       = (Inr (), ob', db') \<and>
     rows blog_db (''Entry'', VInt 5) \<noteq> None \<and> rows db' (''Entry'', VInt 5) = None"
proof -
  let ?e = "entry_form (VInt 5) ''mine'' True"
  let ?f = "blog_form ''first'' [?e]"
  have h: "?e \<in> set [?e]"
    "form_data ?e (mc_pk (fk_model_class blog_key)) = Some (DVal (VInt 5))" "VInt 5 \<noteq> VNone"
    "data_truthy (form_data ?e ''delete_'')"
    "form_data ?e (fk_name blog_key) = None \<or> form_data ?e (fk_name blog_key) = Some (DVal (VInt 1))"
    by (simp_all add: save_example_simps)
  have f: "fresh blog_db"
    by (auto simp: fresh_def below_next_def blog_db_def split: val.splits if_splits)
  have m: "(''entries'', BoundModelListField blog_key [?e]) \<in> set (fields_of ?f)"
    by (simp add: blog_form_def)
  obtain r ob' db' where run: "save_to ?f blog1 blog_db = (r, ob', db')"
    by (cases "save_to ?f blog1 blog_db")
  have "fst (save_to ?f blog1 blog_db) = Inr ()"
    by (simp add: save_example_simps save_to_def save_to_body_def atomic_def)
  with run have r: "r = Inr ()" by simp
  from flagged_child_deleted[OF h] f m run r
  have "rows db' (mc_name (fk_model_class blog_key), VInt 5) = None" by blast
  moreover have "mc_name (fk_model_class blog_key) = ''Entry''"
    "rows blog_db (''Entry'', VInt 5) \<noteq> None"
    by (simp_all add: save_example_simps)
  ultimately show ?thesis using run r by auto
qed


subsection \<open>Saving the same form again\<close>





































end
